theory Spec2Isabelle
  imports Main "HOL-Library.Word" "HOL-Library.Sublist"
begin

unbundle bit_operations_syntax

section \<open>Faults\<close>

text \<open>
  Every exception the three components can raise is a value of one type.
  \<^item> \<open>OutOfRange\<close>: \<open>std::out_of_range\<close>, thrown by the bounds-checked \<open>vector::at\<close>;
  \<^item> \<open>NotProgrammed\<close>: "Attempted to update pe state without it being programmed";
  \<^item> \<open>InvalidDescriptor\<close>: "Invalid Descriptor in pe program";
  \<^item> \<open>NonByteAligned\<close>: "Adapter does not currently support non-byte aligned widths";
  \<^item> \<open>PacketWriteFailed\<close>: "Failed to write DMA transaction to memory" (sig2sock.cc);
  \<^item> \<open>LoadWriteFailed\<close>: "Failed to write test data to memory";
  \<^item> \<open>WritebackReadFailed\<close>: "Failed to read writeback data from memory";
  \<^item> \<open>EmptyQueueAccess\<close>: \<open>front()\<close> or \<open>pop()\<close> on an empty \<open>std::queue\<close>, which C++
    leaves undefined; the model makes it a fault of its own so that it cannot pass unseen;
  \<^item> \<open>AssertionFailed\<close>: a failed \<open>assert\<close>.
\<close>

datatype fault =
    OutOfRange
  | NotProgrammed
  | InvalidDescriptor
  | NonByteAligned
  | PacketWriteFailed
  | LoadWriteFailed
  | WritebackReadFailed
  | EmptyQueueAccess
  | AssertionFailed

section \<open>The processing element (pe.cc)\<close>

text \<open>
  Modelled from the spec: the header pe.hh, which declares \<open>Descriptor_2D\<close>,
  \<open>DescriptorState\<close> and the members of \<open>PE\<close>, is not among the sources. The spec's data
  model lists the descriptor's fields; the counters are taken as integers (C++ leaves
  signed overflow undefined, so no wrap-around is modelled), the program cursor as a
  natural number. \<open>UNRECOGNISED\<close> stands for any state tag other than the three that
  pe.cc names.
\<close>

datatype DescriptorState = GENWAIT | WAIT | SUSPENDED | UNRECOGNISED

record Descriptor_2D =
  state :: DescriptorState
  x_count :: int
  x_counter :: int
  y_count :: int
  y_counter :: int
  y_modify :: int

record PE =
  weights :: "int list"
  weight_idx :: int
  program :: "Descriptor_2D list"
  prog_idx :: nat
  programmed :: bool

text \<open>
  The constructor resets the weight index and the weights and clears \<open>programmed\<close>. It
  does not assign \<open>prog_idx\<close>: its first value is whatever the parameter \<open>idx0\<close> says.
\<close>

definition PE_new :: "nat \<Rightarrow> PE" where
  "PE_new idx0 =
     \<lparr>weights = [], weight_idx = 0, program = [], prog_idx = idx0, programmed = False\<rparr>"

definition resetWeightIdx :: "PE \<Rightarrow> PE" where
  "resetWeightIdx pe = pe\<lparr>weight_idx := 0\<rparr>"

definition resetWeights :: "PE \<Rightarrow> PE" where
  "resetWeights pe = pe\<lparr>weights := []\<rparr>"

definition reset :: "PE \<Rightarrow> PE" where
  "reset pe = (resetWeights (resetWeightIdx pe))\<lparr>programmed := False\<rparr>"

text \<open>\<open>weights[weight_idx]\<close> is unchecked in the source; out of range it is undefined
  there and \<open>OutOfRange\<close> here.\<close>

definition currentWeight :: "PE \<Rightarrow> fault + int" where
  "currentWeight pe =
     (if 0 \<le> weight_idx pe \<and> nat (weight_idx pe) < length (weights pe)
      then Inr (weights pe ! nat (weight_idx pe)) else Inl OutOfRange)"

definition loadWeights :: "int list \<Rightarrow> PE \<Rightarrow> PE" where
  "loadWeights ws pe = pe\<lparr>weights := ws\<rparr>"

definition loadProgram :: "Descriptor_2D list \<Rightarrow> PE \<Rightarrow> PE" where
  "loadProgram prog pe = pe\<lparr>program := prog, prog_idx := 0, programmed := True\<rparr>"

text \<open>
  \<open>updateState\<close>: \<open>program.at(prog_idx)\<close> is bounds-checked and throws before anything is
  written; \<open>current_desc\<close> is a reference, so the counters are updated in the program
  itself. The test of \<open>y_counter\<close> stands after the block that handles the underflow of
  \<open>x_counter\<close>, not inside it.
\<close>

definition updateState :: "PE \<Rightarrow> fault + PE" where
  "updateState pe =
     (if programmed pe then
        (if prog_idx pe < length (program pe) then
           (let current_desc = program pe ! prog_idx pe in
            if state current_desc = GENWAIT then
              (let d1 = current_desc\<lparr>x_counter := x_counter current_desc - 1\<rparr>;
                   d2 = (if x_counter d1 < 0
                         then d1\<lparr>x_counter := x_count d1, y_counter := y_counter d1 - 1\<rparr>
                         else d1);
                   w = (if x_counter d1 < 0 then weight_idx pe + y_modify d1
                        else weight_idx pe);
                   p = (if y_counter d2 < 0 then prog_idx pe + 1 else prog_idx pe)
               in Inr (pe\<lparr>program := (program pe)[prog_idx pe := d2],
                           weight_idx := w, prog_idx := p\<rparr>))
            else if state current_desc = WAIT then
              (let d1 = current_desc\<lparr>x_counter := x_counter current_desc - 1\<rparr>;
                   d2 = (if x_counter d1 < 0
                         then d1\<lparr>x_counter := x_count d1, y_counter := y_counter d1 - 1\<rparr>
                         else d1);
                   p = (if y_counter d2 < 0 then prog_idx pe + 1 else prog_idx pe)
               in Inr (pe\<lparr>program := (program pe)[prog_idx pe := d2], prog_idx := p\<rparr>))
            else if state current_desc = SUSPENDED then Inr pe
            else Inl InvalidDescriptor)
         else Inl OutOfRange)
      else Inl NotProgrammed)"

text \<open>The scheduler calls \<open>updateState\<close> once per tick; an exception ends the run.\<close>

fun run_ticks :: "nat \<Rightarrow> PE \<Rightarrow> fault + PE" where
  "run_ticks 0 pe = Inr pe"
| "run_ticks (Suc n) pe =
     (case updateState pe of Inl e \<Rightarrow> Inl e | Inr pe' \<Rightarrow> run_ticks n pe')"

text \<open>What a test observes of an engine with a one-descriptor program: the two counters
  of the descriptor, the weight index and the cursor.\<close>

definition observe :: "PE \<Rightarrow> int \<times> int \<times> int \<times> nat" where
  "observe pe =
     (x_counter (program pe ! 0), y_counter (program pe ! 0), weight_idx pe, prog_idx pe)"

text \<open>The program of the spec's example: one \<open>GENWAIT\<close> descriptor with \<open>x_count = 2\<close>,
  \<open>y_count = 1\<close>, \<open>y_modify = 1\<close>, both counters starting at their counts.\<close>

definition example_desc :: Descriptor_2D where
  "example_desc =
     \<lparr>state = GENWAIT, x_count = 2, x_counter = 2, y_count = 1, y_counter = 1, y_modify = 1\<rparr>"

definition example_pe :: PE where
  "example_pe = loadProgram [example_desc] (PE_new 0)"

section \<open>The stream packetizer (sig2sock.cc)\<close>

text \<open>
  Modelled from the spec: the header sig2sock.hh, which declares the members of
  \<open>Sig2Sock\<close>, is not among the sources. The buffer is a FIFO of bus samples, each held
  in a 64-bit word (\<open>flushBuffer\<close> asserts that a sample's bytes fit \<open>uint64_t\<close>), its
  front at the head of the list; the counters are \<open>size_t\<close> values far from their bound
  and are natural numbers here. \<open>packets\<close> lists the payloads of the write transactions
  issued on the output socket, oldest first. The template parameter \<open>BUSWIDTH\<close> is the
  first argument of every function.
\<close>

definition bitsToBytes :: "nat \<Rightarrow> nat" where
  "bitsToBytes bits = (let bytes = bits div 8 in if bits mod 8 \<noteq> 0 then bytes + 1 else bytes)"

record Sig2Sock =
  buffer :: "64 word list"
  currentWords :: nat
  maxWords :: nat
  setupTime :: nat
  inputReady :: bool
  packets :: "8 word list list"

text \<open>What the module reads at a rising clock edge: the \<open>peripheralValid\<close> line, the
  sample on \<open>inputSig\<close>, the \<open>packetLength\<close> field, and whether the transport answers a
  write of this tick with an ok response.\<close>

record tick_input =
  peripheralValid :: bool
  inputSig :: "64 word"
  packetLength :: nat
  response_ok :: bool

text \<open>The constructor rejects a width that is not a multiple of 8. It does not assign
  \<open>inputReady\<close>, whose first value is the parameter \<open>ready0\<close>.\<close>

definition Sig2Sock_new :: "nat \<Rightarrow> nat \<Rightarrow> bool \<Rightarrow> fault + Sig2Sock" where
  "Sig2Sock_new BUSWIDTH maxW ready0 =
     (if BUSWIDTH mod 8 \<noteq> 0 then Inl NonByteAligned
      else Inr \<lparr>buffer = [], currentWords = 0, maxWords = maxW, setupTime = 1,
                inputReady = ready0, packets = []\<rparr>)"

text \<open>The inner loop of \<open>flushBuffer\<close> copies the first \<open>n\<close> bytes of the sample as they
  lie in memory: lowest byte first on the little-endian hosts the model is built for.\<close>

definition word_bytes :: "nat \<Rightarrow> 64 word \<Rightarrow> 8 word list" where
  "word_bytes n w = map (\<lambda>i. ucast (drop_bit (8 * i) w)) [0..<n]"

text \<open>The outer loop of \<open>flushBuffer\<close>, \<open>k\<close> iterations to go: check the assertion,
  serialise the front sample, pop it. It never looks at the size of the buffer;
  \<open>front()\<close> on an empty queue is the fault \<open>EmptyQueueAccess\<close>.\<close>

fun pop_words :: "nat \<Rightarrow> nat \<Rightarrow> 64 word list \<Rightarrow> 8 word list \<Rightarrow> fault + (64 word list \<times> 8 word list)" where
  "pop_words 0 n buf transData = Inr (buf, transData)"
| "pop_words (Suc k) n buf transData =
     (if 8 < n then Inl AssertionFailed
      else case buf of
             [] \<Rightarrow> Inl EmptyQueueAccess
           | w # rest \<Rightarrow> pop_words k n rest (transData @ word_bytes n w))"

definition flushBuffer :: "nat \<Rightarrow> tick_input \<Rightarrow> Sig2Sock \<Rightarrow> fault + Sig2Sock" where
  "flushBuffer BUSWIDTH inp s =
     (let requiredLength = packetLength inp in
      if requiredLength \<noteq> 0 \<and> requiredLength \<le> length (buffer s) * bitsToBytes BUSWIDTH then
        (case pop_words requiredLength (bitsToBytes BUSWIDTH) (buffer s) [] of
           Inl e \<Rightarrow> Inl e
         | Inr (buf, transData) \<Rightarrow>
             if response_ok inp then Inr (s\<lparr>buffer := buf, packets := packets s @ [transData]\<rparr>)
             else Inl PacketWriteFailed)
      else Inr s)"

text \<open>The last two statements of \<open>updateInput\<close>: flush, then assign \<open>inputReady\<close>.\<close>

definition flush_and_ready :: "nat \<Rightarrow> tick_input \<Rightarrow> Sig2Sock \<Rightarrow> fault + Sig2Sock" where
  "flush_and_ready BUSWIDTH inp s =
     (case flushBuffer BUSWIDTH inp s of
        Inl e \<Rightarrow> Inl e
      | Inr s' \<Rightarrow> Inr (s'\<lparr>inputReady := currentWords s' < maxWords s'\<rparr>))"

text \<open>\<open>updateInput\<close>: the tick that is spent on the setup delay returns before the flush
  and before \<open>inputReady\<close> is assigned.\<close>

definition updateInput :: "nat \<Rightarrow> tick_input \<Rightarrow> Sig2Sock \<Rightarrow> fault + Sig2Sock" where
  "updateInput BUSWIDTH inp s =
     (if peripheralValid inp \<and> currentWords s < maxWords s then
        (if setupTime s \<noteq> 0 then Inr (s\<lparr>setupTime := setupTime s - 1\<rparr>)
         else flush_and_ready BUSWIDTH inp
                (s\<lparr>buffer := buffer s @ [inputSig inp], currentWords := currentWords s + 1\<rparr>))
      else flush_and_ready BUSWIDTH inp s)"

definition resetSetupTime :: "Sig2Sock \<Rightarrow> Sig2Sock" where
  "resetSetupTime s = s\<lparr>setupTime := 1\<rparr>"

text \<open>The two methods are run by the scheduler: \<open>updateInput\<close> at each rising clock edge,
  \<open>resetSetupTime\<close> at each falling edge of \<open>peripheralValid\<close>.\<close>

datatype sig_event = Posedge tick_input | ValidNeg

fun run_events :: "nat \<Rightarrow> sig_event list \<Rightarrow> Sig2Sock \<Rightarrow> fault + Sig2Sock" where
  "run_events BUSWIDTH [] s = Inr s"
| "run_events BUSWIDTH (Posedge inp # evs) s =
     (case updateInput BUSWIDTH inp s of
        Inl e \<Rightarrow> Inl e
      | Inr s' \<Rightarrow> run_events BUSWIDTH evs s')"
| "run_events BUSWIDTH (ValidNeg # evs) s = run_events BUSWIDTH evs (resetSetupTime s)"

text \<open>A module is constructed, then driven by events.\<close>

definition simulate :: "nat \<Rightarrow> nat \<Rightarrow> bool \<Rightarrow> sig_event list \<Rightarrow> fault + Sig2Sock" where
  "simulate BUSWIDTH maxW ready0 evs =
     (case Sig2Sock_new BUSWIDTH maxW ready0 of
        Inl e \<Rightarrow> Inl e
      | Inr s \<Rightarrow> run_events BUSWIDTH evs s)"

text \<open>A tick with \<open>peripheralValid\<close> asserted, sample \<open>w\<close>, packet length \<open>L\<close> and a
  transport that answers ok.\<close>

definition valid_tick :: "nat \<Rightarrow> 64 word \<Rightarrow> sig_event" where
  "valid_tick L w =
     Posedge \<lparr>peripheralValid = True, inputSig = w, packetLength = L, response_ok = True\<rparr>"

text \<open>The samples taken in a run, in order: \<open>updateInput\<close> increments \<open>currentWords\<close>
  exactly when it pushes the sample of the tick.\<close>

fun sampled_words :: "nat \<Rightarrow> sig_event list \<Rightarrow> Sig2Sock \<Rightarrow> 64 word list" where
  "sampled_words BUSWIDTH [] s = []"
| "sampled_words BUSWIDTH (Posedge inp # evs) s =
     (case updateInput BUSWIDTH inp s of
        Inl e \<Rightarrow> []
      | Inr s' \<Rightarrow>
          (if currentWords s' = currentWords s + 1 then [inputSig inp] else []) @
          sampled_words BUSWIDTH evs s')"
| "sampled_words BUSWIDTH (ValidNeg # evs) s = sampled_words BUSWIDTH evs (resetSetupTime s)"

text \<open>The bytes a module has taken in so far: those it has sent, then those it holds.\<close>

definition byte_stream :: "nat \<Rightarrow> Sig2Sock \<Rightarrow> 8 word list" where
  "byte_stream BUSWIDTH s =
     concat (packets s) @ concat (map (word_bytes (bitsToBytes BUSWIDTH)) (buffer s))"

definition framed :: "nat \<Rightarrow> Sig2Sock \<Rightarrow> bool" where
  "framed L s =
     (length (buffer s) < L \<and> list_all (\<lambda>p. length p = L) (packets s) \<and>
      length (packets s) * L + length (buffer s) = currentWords s)"

section \<open>The DMA register-protocol driver (dmaTester.cc)\<close>

subsection \<open>Samples\<close>

text \<open>
  The test vector holds \<open>float\<close> values. A sample is its IEEE-754 binary32 bit pattern;
  \<open>float_ne\<close> is the \<open>!=\<close> of C++ on such values: a NaN differs from everything, the two
  zeros are equal, any other two values are equal when their bits are.
\<close>

type_synonym float32 = "32 word"

definition float_isnan :: "float32 \<Rightarrow> bool" where
  "float_isnan w = (drop_bit 23 w AND 0xFF = 0xFF \<and> w AND 0x7FFFFF \<noteq> 0)"

definition float_iszero :: "float32 \<Rightarrow> bool" where
  "float_iszero w = (w AND 0x7FFFFFFF = 0)"

definition float_ne :: "float32 \<Rightarrow> float32 \<Rightarrow> bool" where
  "float_ne a b =
     (float_isnan a \<or> float_isnan b \<or> (a \<noteq> b \<and> \<not> (float_iszero a \<and> float_iszero b)))"

fun ilog2 :: "nat \<Rightarrow> nat" where
  "ilog2 n = (if n < 2 then 0 else Suc (ilog2 (n div 2)))"

text \<open>The conversion of a \<open>size_t\<close> to \<open>float\<close>, exact below \<open>2 ^ 24\<close> (no rounding is
  modelled; \<open>loadData\<close> converts 0 to 9).\<close>

definition float_of_size_t :: "nat \<Rightarrow> float32" where
  "float_of_size_t n =
     (if n = 0 then 0
      else let e = ilog2 n
           in push_bit 23 (of_nat (e + 127)) OR of_nat ((n - 2 ^ e) * 2 ^ (23 - e)))"

subsection \<open>Registers, transactions, the transport\<close>

text \<open>
  Modelled from the spec: the headers dmaTester.hh and dmaTestRegisterMap.hh are not
  among the sources. The spec's register map names five registers per engine, selected
  by direction and instance number: an address is either a memory address or such a
  register. The two constants the driver takes from the register map are parameters.
  The offsets are natural numbers.
\<close>

datatype dma_register = ADDR_REG | ADDR_MSB_REG | LENGTH_REG | CR_REG | SR_REG

datatype address = MEM "64 word" | REG bool dma_register nat

record register_map =
  MEM_BASE_ADDR :: "64 word"
  AXIDMA_CR_IOC_IRQ_EN :: "32 word"

datatype command = READ | WRITE

text \<open>A transaction carries 32-bit words (samples or register values): \<open>payload\<close> is
  what a write sends, \<open>nbytes\<close> the data length.\<close>

record transaction =
  cmd :: command
  addr :: address
  payload :: "32 word list"
  nbytes :: nat

text \<open>What the transport leaves behind: the response status, and for a read the
  contents of the data buffer, by word index.\<close>

record response =
  ok :: bool
  rdata :: "nat \<Rightarrow> 32 word"

text \<open>
  The transport and the scheduler are collaborators. A flow's run is described by the
  actions it performs, in order; where it suspends, the action is recorded and the flow
  goes on, so the model describes the runs in which every awaited event arrives. The
  transport is an oracle: it answers a transaction from its position in the flow's
  trace and its contents, so that any target, and any effect of the other flow on the
  target, is an instance.
\<close>

datatype sc_event = dataLoaded | mm2sIRQOnComp_posedge | s2mmIRQOnComp_posedge

datatype action =
    Wait_ps nat
  | WaitEvent sc_event
  | Notify sc_event
  | Transport transaction bool
  | Print string

type_synonym transport = "nat \<Rightarrow> transaction \<Rightarrow> response"

record DMATester =
  burstMode :: bool
  mm2sOffset :: nat
  s2mmOffset :: nat
  testData :: "float32 list"
  trace :: "action list"

definition DMATester_new :: "bool \<Rightarrow> DMATester" where
  "DMATester_new burst =
     \<lparr>burstMode = burst, mm2sOffset = 0, s2mmOffset = 0, testData = [], trace = []\<rparr>"

definition emit :: "action \<Rightarrow> DMATester \<Rightarrow> DMATester" where
  "emit a s = s\<lparr>trace := trace s @ [a]\<rparr>"

text \<open>\<open>b_transport\<close>: \<open>respond\<close> is the answer, \<open>transact\<close> the state after the call.\<close>

definition respond :: "transport \<Rightarrow> transaction \<Rightarrow> DMATester \<Rightarrow> response" where
  "respond tp t s = tp (length (trace s)) t"

definition transact :: "transport \<Rightarrow> transaction \<Rightarrow> DMATester \<Rightarrow> DMATester" where
  "transact tp t s = emit (Transport t (ok (respond tp t s))) s"

subsection \<open>The driver's operations\<close>

definition loadData :: "transport \<Rightarrow> register_map \<Rightarrow> DMATester \<Rightarrow> (fault \<times> DMATester) + DMATester" where
  "loadData tp c s =
     (let s1 = s\<lparr>testData := testData s @ map float_of_size_t [0..<10]\<rparr>;
          t = \<lparr>cmd = WRITE, addr = MEM (MEM_BASE_ADDR c), payload = testData s1,
               nbytes = length (testData s1) * 4\<rparr>;
          s2 = transact tp t s1
      in if \<not> ok (respond tp t s1) then Inl (LoadWriteFailed, s2)
         else Inr (emit (Notify dataLoaded) s2))"

text \<open>\<open>sendDMAReq\<close>: three register writes whose response status is never read, then the
  offset of the direction is advanced. \<open>dataSize\<close> is a \<open>uint32_t\<close>.\<close>

definition sendDMAReq :: "transport \<Rightarrow> register_map \<Rightarrow> bool \<Rightarrow> DMATester \<Rightarrow> DMATester" where
  "sendDMAReq tp c s2mm s =
     (let dataAddress = MEM_BASE_ADDR c +
            of_nat ((if s2mm then length (testData s) + s2mmOffset s else mm2sOffset s) * 4);
          addrLsb = (ucast (drop_bit 32 (push_bit 32 dataAddress)) :: 32 word);
          addrMsb = (ucast (drop_bit 32 dataAddress) :: 32 word);
          dataSize = (if burstMode s then 4 * of_nat (length (testData s)) else 4 :: 32 word);
          s1 = transact tp \<lparr>cmd = WRITE, addr = REG s2mm ADDR_REG 0, payload = [addrLsb],
                             nbytes = 4\<rparr> s;
          s2 = transact tp \<lparr>cmd = WRITE, addr = REG s2mm ADDR_MSB_REG 0, payload = [addrMsb],
                             nbytes = 4\<rparr> s1;
          s3 = transact tp \<lparr>cmd = WRITE, addr = REG s2mm LENGTH_REG 0, payload = [dataSize],
                             nbytes = 4\<rparr> s2
      in if s2mm then s3\<lparr>s2mmOffset := s2mmOffset s3 + unat dataSize div 4\<rparr>
         else s3\<lparr>mm2sOffset := mm2sOffset s3 + unat dataSize div 4\<rparr>)"

definition sendMM2SReq :: "transport \<Rightarrow> register_map \<Rightarrow> DMATester \<Rightarrow> DMATester" where
  "sendMM2SReq tp c s = sendDMAReq tp c False s"

definition sendS2MMReq :: "transport \<Rightarrow> register_map \<Rightarrow> DMATester \<Rightarrow> DMATester" where
  "sendS2MMReq tp c s = sendDMAReq tp c True s"

definition enableIOC :: "transport \<Rightarrow> register_map \<Rightarrow> bool \<Rightarrow> nat \<Rightarrow> DMATester \<Rightarrow> DMATester" where
  "enableIOC tp c s2mm ii s =
     (let t = \<lparr>cmd = READ, addr = REG s2mm CR_REG ii, payload = [], nbytes = 4\<rparr>;
          crRegVal = rdata (respond tp t s) 0 OR AXIDMA_CR_IOC_IRQ_EN c;
          s1 = transact tp t s
      in transact tp \<lparr>cmd = WRITE, addr = REG s2mm CR_REG ii, payload = [crRegVal],
                       nbytes = 4\<rparr> s1)"

definition clearIOC :: "transport \<Rightarrow> register_map \<Rightarrow> bool \<Rightarrow> nat \<Rightarrow> DMATester \<Rightarrow> DMATester" where
  "clearIOC tp c s2mm ii s =
     (let t = \<lparr>cmd = READ, addr = REG s2mm SR_REG ii, payload = [], nbytes = 4\<rparr>;
          srRegVal = rdata (respond tp t s) 0;
          s1 = emit (Wait_ps 50) (transact tp t s);
          s2 = transact tp \<lparr>cmd = WRITE, addr = REG s2mm SR_REG ii, payload = [srRegVal],
                             nbytes = 4\<rparr> s1
      in emit (Wait_ps 50) s2)"

subsection \<open>The two flows\<close>

definition offset_of :: "bool \<Rightarrow> DMATester \<Rightarrow> nat" where
  "offset_of s2mm s = (if s2mm then s2mmOffset s else mm2sOffset s)"

definition irq_event :: "bool \<Rightarrow> sc_event" where
  "irq_event s2mm = (if s2mm then s2mmIRQOnComp_posedge else mm2sIRQOnComp_posedge)"

text \<open>
  The loops of \<open>testRun\<close> and of \<open>verifyMemWriteback\<close> are the same text, one for each
  direction: while the direction's offset is below the size of the test data, send a
  request, wait for the rising edge of the direction's interrupt line, clear the
  interrupt. \<open>transfer_body\<close> is one iteration, \<open>transfer_loop\<close> the loop; nothing in
  the loop bounds the number of iterations, so the loop is a partial function.
\<close>

definition transfer_body :: "transport \<Rightarrow> register_map \<Rightarrow> bool \<Rightarrow> DMATester \<Rightarrow> DMATester" where
  "transfer_body tp c s2mm s =
     clearIOC tp c s2mm 0 (emit (WaitEvent (irq_event s2mm)) (sendDMAReq tp c s2mm s))"

partial_function (option) transfer_loop ::
  "transport \<Rightarrow> register_map \<Rightarrow> bool \<Rightarrow> DMATester \<Rightarrow> DMATester option" where
  "transfer_loop tp c s2mm s =
     (if offset_of s2mm s < length (testData s)
      then transfer_loop tp c s2mm (transfer_body tp c s2mm s)
      else Some s)"

declare transfer_loop.simps [code]

text \<open>\<open>testRun\<close>, the memory-to-stream flow. \<open>None\<close>: the loop does not end.\<close>

definition testRun ::
  "transport \<Rightarrow> register_map \<Rightarrow> DMATester \<Rightarrow> ((fault \<times> DMATester) + DMATester) option" where
  "testRun tp c s =
     (case loadData tp c (emit (Wait_ps 20000) s) of
        Inl e \<Rightarrow> Some (Inl e)
      | Inr s1 \<Rightarrow>
          (case transfer_loop tp c False (enableIOC tp c False 0 s1) of
             None \<Rightarrow> None
           | Some s2 \<Rightarrow> Some (Inr (emit (Print ''Test data consumed!'') s2))))"

text \<open>The comparison loop at the end of \<open>verifyMemWriteback\<close>, from index \<open>ii\<close>: the index
  at which it returns early, if it does. Both reads are bounds-checked.\<close>

datatype comparison = Mismatch nat | AllMatch | AtThrows

function compare_from :: "nat \<Rightarrow> float32 list \<Rightarrow> float32 list \<Rightarrow> comparison" where
  "compare_from ii td md =
     (if ii < length td then
        (if ii < length md then
           (if float_ne (td ! ii) (md ! ii) then Mismatch ii else compare_from (ii + 1) td md)
         else AtThrows)
      else AllMatch)"
  by pat_completeness auto
termination
  by (relation "measure (\<lambda>(ii, td, md). length td - ii)") auto

declare compare_from.simps [simp del]

text \<open>
  \<open>verifyMemWriteback\<close>, the stream-to-memory flow. The test data is written by the other
  flow; \<open>loaded\<close> is the value of \<open>testData\<close> that this flow finds when it resumes from
  \<open>wait(dataLoaded)\<close>. Nothing before that wait reads \<open>testData\<close>.
\<close>

definition verifyMemWriteback ::
  "transport \<Rightarrow> register_map \<Rightarrow> float32 list \<Rightarrow> DMATester \<Rightarrow>
     ((fault \<times> DMATester) + DMATester) option" where
  "verifyMemWriteback tp c loaded s =
     (let s1 = enableIOC tp c True 0 (emit (Wait_ps 20000) s);
          s2 = (emit (WaitEvent dataLoaded) s1)\<lparr>testData := loaded\<rparr>
      in case transfer_loop tp c True s2 of
           None \<Rightarrow> None
         | Some s3 \<Rightarrow>
             (let t = \<lparr>cmd = READ,
                        addr = MEM (MEM_BASE_ADDR c + of_nat (length (testData s3) * 4)),
                        payload = [], nbytes = length (testData s3) * 4\<rparr>;
                  memData = map (rdata (respond tp t s3)) [0..<length (testData s3)];
                  s4 = transact tp t s3
              in if \<not> ok (respond tp t s3) then Some (Inl (WritebackReadFailed, s4))
                 else (case compare_from 0 (testData s4) memData of
                         Mismatch ii \<Rightarrow>
                           Some (Inr (emit (Print ''Writeback data doesn't match test data'') s4))
                       | AllMatch \<Rightarrow> Some (Inr s4)
                       | AtThrows \<Rightarrow> Some (Inl (OutOfRange, s4)))))"

subsection \<open>Observing a run\<close>

text \<open>The vector that \<open>loadData\<close> appends, and the two memory transactions of the flows:
  the write of \<open>loadData\<close> and the read at the end of \<open>verifyMemWriteback\<close>, for a driver
  whose test data is that vector.\<close>

definition test_vector :: "float32 list" where
  "test_vector = map float_of_size_t [0..<10]"

definition load_transaction :: "register_map \<Rightarrow> transaction" where
  "load_transaction c =
     \<lparr>cmd = WRITE, addr = MEM (MEM_BASE_ADDR c), payload = test_vector, nbytes = 40\<rparr>"

definition readback_transaction :: "register_map \<Rightarrow> transaction" where
  "readback_transaction c =
     \<lparr>cmd = READ, addr = MEM (MEM_BASE_ADDR c + 40), payload = [], nbytes = 40\<rparr>"

text \<open>A transfer request of a direction: the write of its \<open>LENGTH_REG\<close>, which starts the
  transfer. \<open>sendDMAReq\<close> issues one per call.\<close>

definition is_request :: "bool \<Rightarrow> action \<Rightarrow> bool" where
  "is_request s2mm a =
     (case a of Transport t _ \<Rightarrow> cmd t = WRITE \<and> addr t = REG s2mm LENGTH_REG 0 | _ \<Rightarrow> False)"

definition transfer_requests :: "bool \<Rightarrow> action list \<Rightarrow> nat" where
  "transfer_requests s2mm tr = length (filter (is_request s2mm) tr)"

text \<open>The register transactions of a trace that came back with a status other than ok.\<close>

definition failed_register_transactions :: "action list \<Rightarrow> action list" where
  "failed_register_transactions tr =
     filter (\<lambda>a. case a of
                   Transport t status \<Rightarrow> \<not> status \<and> (case addr t of REG _ _ _ \<Rightarrow> True | MEM _ \<Rightarrow> False)
                 | _ \<Rightarrow> False) tr"

text \<open>The lines written to \<open>std::cout\<close>.\<close>

definition printed :: "action list \<Rightarrow> string list" where
  "printed tr = concat (map (\<lambda>a. case a of Print m \<Rightarrow> [m] | _ \<Rightarrow> []) tr)"

definition final_state :: "(fault \<times> DMATester) + DMATester \<Rightarrow> DMATester" where
  "final_state r = (case r of Inl (e, s) \<Rightarrow> s | Inr s \<Rightarrow> s)"

text \<open>The number of words by which one \<open>sendDMAReq\<close> advances the offset:
  \<open>dataSize / sizeof(float)\<close>.\<close>

definition dataSize_words :: "DMATester \<Rightarrow> nat" where
  "dataSize_words s =
     unat (if burstMode s then 4 * of_nat (length (testData s)) else 4 :: 32 word) div 4"

text \<open>The state at the head of a flow's loop after \<open>k\<close> passes: an iteration while the
  loop's condition holds, the same state once it has failed.\<close>

definition loop_states :: "transport \<Rightarrow> register_map \<Rightarrow> bool \<Rightarrow> DMATester \<Rightarrow> nat \<Rightarrow> DMATester" where
  "loop_states tp c s2mm s k =
     ((\<lambda>s. if offset_of s2mm s < length (testData s) then transfer_body tp c s2mm s else s) ^^ k) s"

text \<open>The states in which the two flows reach their loops: \<open>testRun\<close> after the delay,
  \<open>loadData\<close> and \<open>enableIOC\<close>; \<open>verifyMemWriteback\<close> after the delay, \<open>enableIOC\<close> and the
  wait for \<open>dataLoaded\<close>.\<close>

definition testRun_entry ::
  "transport \<Rightarrow> register_map \<Rightarrow> DMATester \<Rightarrow> (fault \<times> DMATester) + DMATester" where
  "testRun_entry tp c s =
     (case loadData tp c (emit (Wait_ps 20000) s) of
        Inl e \<Rightarrow> Inl e
      | Inr s1 \<Rightarrow> Inr (enableIOC tp c False 0 s1))"

definition verifyMemWriteback_entry ::
  "transport \<Rightarrow> register_map \<Rightarrow> float32 list \<Rightarrow> DMATester \<Rightarrow> DMATester" where
  "verifyMemWriteback_entry tp c loaded s =
     (emit (WaitEvent dataLoaded) (enableIOC tp c True 0 (emit (Wait_ps 20000) s)))
       \<lparr>testData := loaded\<rparr>"

text \<open>Transports and a register map for concrete runs: one that answers every
  transaction ok and reads zeros; one that answers ok on memory and not ok on every
  register; one that reads back the test vector with the word at index \<open>i\<close> replaced
  by \<open>v\<close>.\<close>

definition tp_ok :: transport where
  "tp_ok = (\<lambda>n t. \<lparr>ok = True, rdata = (\<lambda>i. 0)\<rparr>)"

definition tp_regfail :: transport where
  "tp_regfail =
     (\<lambda>n t. \<lparr>ok = (case addr t of MEM _ \<Rightarrow> True | REG _ _ _ \<Rightarrow> False), rdata = (\<lambda>i. 0)\<rparr>)"

definition tp_readback :: "nat \<Rightarrow> float32 \<Rightarrow> transport" where
  "tp_readback i v =
     (\<lambda>n t. \<lparr>ok = True,
              rdata = (\<lambda>j. case addr t of
                             MEM _ \<Rightarrow> if j = i then v else if j < 10 then test_vector ! j else 0
                           | REG _ _ _ \<Rightarrow> 0)\<rparr>)"

definition regs0 :: register_map where
  "regs0 = \<lparr>MEM_BASE_ADDR = 0x1000, AXIDMA_CR_IOC_IRQ_EN = 0x1000\<rparr>"

section \<open>Properties of the processing element\<close>

lemma example_pe_simps:
  "programmed example_pe" "program example_pe = [example_desc]" "prog_idx example_pe = 0"
  "weight_idx example_pe = 0"
  by (simp_all add: example_pe_def loadProgram_def PE_new_def)

lemma example_run:
  "map (\<lambda>n. map_sum id observe (run_ticks n example_pe)) [0, 1, 2, 3] =
     [Inr (2, 1, 0, 0), Inr (1, 1, 0, 0), Inr (0, 1, 0, 0), Inr (2, 0, 1, 0)]"
  by (simp add: eval_nat_numeral updateState_def example_pe_def loadProgram_def PE_new_def
      example_desc_def observe_def)

text \<open>
  C2. For a programmed engine whose current descriptor is \<open>GENWAIT\<close>, one \<open>updateState\<close>
  returns normally and decrements \<open>x_counter\<close>; when that takes \<open>x_counter\<close> below 0,
  \<open>x_counter\<close> is reset to \<open>x_count\<close>, \<open>y_counter\<close> is decremented and the weight index
  moves by \<open>y_modify\<close>; when \<open>y_counter\<close> is then below 0 the cursor moves to the next
  descriptor, and otherwise it stays. On the one-descriptor program of the spec
  (\<open>x_count = 2\<close>, \<open>y_count = 1\<close>, \<open>y_modify = 1\<close>, weight index 0) the observations
  (\<open>x_counter\<close>, \<open>y_counter\<close>, weight index, cursor) after 0, 1, 2 and 3 ticks are
  (2,1,0,0), (1,1,0,0), (0,1,0,0) and (2,0,1,0).
\<close>

theorem updateState_GENWAIT:
  assumes "programmed pe" and "prog_idx pe < length (program pe)"
    and "state (program pe ! prog_idx pe) = GENWAIT"
  shows "(\<exists>pe'. updateState pe = Inr pe' \<and>
           (let d = program pe ! prog_idx pe; d' = program pe' ! prog_idx pe in
              (if x_counter d - 1 < 0
               then x_counter d' = x_count d \<and> y_counter d' = y_counter d - 1 \<and>
                    weight_idx pe' = weight_idx pe + y_modify d
               else x_counter d' = x_counter d - 1 \<and> y_counter d' = y_counter d \<and>
                    weight_idx pe' = weight_idx pe) \<and>
              prog_idx pe' = (if y_counter d' < 0 then prog_idx pe + 1 else prog_idx pe))) \<and>
         map (\<lambda>n. map_sum id observe (run_ticks n example_pe)) [0, 1, 2, 3] =
           [Inr (2, 1, 0, 0), Inr (1, 1, 0, 0), Inr (0, 1, 0, 0), Inr (2, 0, 1, 0)]"
  using assms example_run by (simp add: updateState_def Let_def)

theorem updateState_GENWAIT_witness:
  "programmed example_pe \<and> prog_idx example_pe < length (program example_pe) \<and>
   state (program example_pe ! prog_idx example_pe) = GENWAIT \<and>
   map_sum id observe (updateState example_pe) = Inr (1, 1, 0, 0)"
  using updateState_GENWAIT [of example_pe]
  by (auto simp: example_pe_simps example_desc_def observe_def Let_def)

text \<open>
  C9, as the code has it. Once the cursor of a programmed engine is past the last
  descriptor, every further \<open>updateState\<close> ends in the \<open>std::out_of_range\<close> exception of
  the bounds-checked \<open>program.at(prog_idx)\<close>: the program is not read outside its bounds,
  nothing is written, and the call does not return normally.
\<close>

theorem updateState_past_end:
  assumes "programmed pe" and "length (program pe) \<le> prog_idx pe"
  shows "updateState pe = Inl OutOfRange \<and> run_ticks (Suc n) pe = Inl OutOfRange"
  using assms by (simp add: updateState_def)

theorem updateState_past_end_witness:
  "programmed (example_pe\<lparr>prog_idx := 1\<rparr>) \<and>
   length (program (example_pe\<lparr>prog_idx := 1\<rparr>)) \<le> prog_idx (example_pe\<lparr>prog_idx := 1\<rparr>) \<and>
   updateState (example_pe\<lparr>prog_idx := 1\<rparr>) = Inl OutOfRange \<and>
   run_ticks (Suc 0) (example_pe\<lparr>prog_idx := 1\<rparr>) = Inl OutOfRange"
  using updateState_past_end [of "example_pe\<lparr>prog_idx := 1\<rparr>" 0]
  by (simp add: example_pe_simps)

text \<open>
  C9 as stated fails: after six ticks the example engine is programmed, its program has
  one descriptor and its cursor is 1; the seventh tick does not return normally.
\<close>

theorem example_pe_tick7_throws:
  "map_sum id (\<lambda>pe. (programmed pe, length (program pe), prog_idx pe))
     (run_ticks 6 example_pe) = Inr (True, 1, 1) \<and>
   run_ticks 7 example_pe = Inl OutOfRange"
  by (simp add: eval_nat_numeral updateState_def example_pe_def loadProgram_def PE_new_def
      example_desc_def)

section \<open>Properties of the stream packetizer\<close>

text \<open>
  C1 at a failing input. Width 32, packet length 1 byte, room for 8 words; the first
  valid tick is the setup delay, the second samples one word of 4 bytes. The claim
  asks for \<open>1 * 4 div 1 = 4\<close> packets of 1 byte; the module writes one packet of 4 bytes,
  because the flush loop pops \<open>requiredLength\<close> words where the guard counted bytes.
\<close>

theorem packet_length_counts_words:
  "map_sum id packets (simulate 32 8 False [valid_tick 1 0, valid_tick 1 0x04030201]) =
     Inr [[1, 2, 3, 4]] \<and>
   1 * bitsToBytes 32 div 1 = 4"
  by code_simp

text \<open>
  C7 at a failing input. Width 8, at most 2 words, packet length 2. After the setup
  tick and two samples the flush has emptied the buffer, yet \<open>inputReady\<close> is false:
  \<open>currentWords\<close> is incremented at each sample and never decremented by the flush.
\<close>

theorem ready_false_on_empty_buffer:
  "map_sum id (\<lambda>s. (buffer s, currentWords s, maxWords s, inputReady s))
     (simulate 8 2 True [valid_tick 2 0, valid_tick 2 0xAA, valid_tick 2 0xBB]) =
     Inr ([], 2, 2, False)"
  by code_simp

text \<open>
  C10 at a failing input. Width 32, packet length 4 bytes: with one word buffered the
  guard \<open>1 * 4 \<ge> 4\<close> holds and the loop runs 4 times on a buffer of one word; its second
  \<open>front()\<close> is on an empty queue.
\<close>

theorem flush_pops_empty_buffer:
  "simulate 32 8 False [valid_tick 4 0, valid_tick 4 0x04030201] = Inl EmptyQueueAccess"
  by code_simp

subsection \<open>Samples of one byte\<close>

lemma pop_words_enough:
  assumes "k \<le> length buf" and "n \<le> 8"
  shows "pop_words k n buf acc = Inr (drop k buf, acc @ concat (map (word_bytes n) (take k buf)))"
  using assms
proof (induction k arbitrary: buf acc)
  case 0
  then show ?case by simp
next
  case (Suc k)
  then obtain w rest where buf: "buf = w # rest" by (cases buf) auto
  with Suc show ?case by simp
qed

lemma length_word_bytes [simp]: "length (word_bytes n w) = n"
  by (simp add: word_bytes_def)

lemma length_concat_word_bytes [simp]:
  "length (concat (map (word_bytes n) ws)) = n * length ws"
  by (induction ws) simp_all

lemma bitsToBytes_8 [simp]: "bitsToBytes 8 = 1"
  by (simp add: bitsToBytes_def)

lemma flushBuffer_8:
  assumes "packetLength inp = L" and "0 < L" and "length (buffer s) \<le> L"
    and "flushBuffer 8 inp s = Inr s'"
  shows "byte_stream 8 s' = byte_stream 8 s \<and> currentWords s' = currentWords s \<and>
         maxWords s' = maxWords s \<and> setupTime s' = setupTime s \<and>
         (if length (buffer s) = L
          then buffer s' = [] \<and> (\<exists>p. packets s' = packets s @ [p] \<and> length p = L)
          else buffer s' = buffer s \<and> packets s' = packets s)"
proof (cases "length (buffer s) = L")
  case True
  have "pop_words L 1 (buffer s) [] =
          Inr (drop L (buffer s), [] @ concat (map (word_bytes 1) (take L (buffer s))))"
    by (rule pop_words_enough) (use True in simp_all)
  with True assms show ?thesis
    by (auto simp: flushBuffer_def byte_stream_def split: if_splits)
next
  case False
  with assms show ?thesis
    by (auto simp: flushBuffer_def)
qed

lemma updateInput_8:
  assumes "packetLength inp = L" and "0 < L" and "framed L s"
    and "updateInput 8 inp s = Inr s'"
  shows "framed L s' \<and>
         byte_stream 8 s' = byte_stream 8 s @
           concat (map (word_bytes 1)
                     (if currentWords s' = currentWords s + 1 then [inputSig inp] else []))"
proof -
  let ?sample = "peripheralValid inp \<and> currentWords s < maxWords s"
  show ?thesis
  proof (cases "?sample \<and> setupTime s \<noteq> 0")
    case True
    with assms show ?thesis
      by (auto simp: updateInput_def framed_def byte_stream_def)
  next
    case False
    define s1 where "s1 = (if ?sample
        then s\<lparr>buffer := buffer s @ [inputSig inp], currentWords := currentWords s + 1\<rparr> else s)"
    from False assms(4) have fr: "flush_and_ready 8 inp s1 = Inr s'"
      by (auto simp: updateInput_def s1_def split: if_splits)
    then obtain s2 where s2: "flushBuffer 8 inp s1 = Inr s2"
      and s': "s' = s2\<lparr>inputReady := currentWords s2 < maxWords s2\<rparr>"
      by (auto simp: flush_and_ready_def split: sum.splits)
    have l1: "length (buffer s1) \<le> L"
      using assms(3) by (simp add: s1_def framed_def)
    note fl = flushBuffer_8 [OF assms(1,2) l1 s2]
    have b1: "byte_stream 8 s1 = byte_stream 8 s @
                concat (map (word_bytes 1) (if ?sample then [inputSig inp] else []))"
      by (auto simp: s1_def byte_stream_def)
    have c1: "currentWords s1 = (if ?sample then currentWords s + 1 else currentWords s)"
      by (simp add: s1_def)
    have stream: "byte_stream 8 s' = byte_stream 8 s @
           concat (map (word_bytes 1)
                     (if currentWords s' = currentWords s + 1 then [inputSig inp] else []))"
      using fl b1 c1 by (auto simp: s' byte_stream_def)
    have "framed L s'"
    proof (cases "length (buffer s1) = L")
      case True
      with fl obtain p where p: "buffer s2 = []" "packets s2 = packets s1 @ [p]" "length p = L"
        by auto
      have "length (packets s1) * L + length (buffer s1) = currentWords s1"
        using assms(3) by (simp add: s1_def framed_def)
      with p True fl assms(2,3) show ?thesis
        by (simp add: framed_def s' s1_def split: if_splits)
    next
      case ne: False
      with fl have "buffer s2 = buffer s1" "packets s2 = packets s1" by simp_all
      with ne l1 fl assms(3) show ?thesis
        by (auto simp: framed_def s' s1_def split: if_splits)
    qed
    with stream show ?thesis by simp
  qed
qed

lemma updateInput_8_count:
  assumes "packetLength inp = L" and "0 < L" and "framed L s"
    and "updateInput 8 inp s = Inr s'"
  shows "currentWords s' = currentWords s \<or> currentWords s' = currentWords s + 1"
proof -
  have "flushBuffer 8 inp s1 = Inr s2 \<Longrightarrow> currentWords s2 = currentWords s1" for s1 s2
    by (auto simp: flushBuffer_def Let_def split: if_splits sum.splits prod.splits)
  with assms(4) show ?thesis
    by (auto simp: updateInput_def flush_and_ready_def split: if_splits sum.splits)
qed

lemma run_events_8:
  assumes "list_all (\<lambda>e. case e of Posedge inp \<Rightarrow> packetLength inp = L | ValidNeg \<Rightarrow> True) evs"
    and "0 < L" and "framed L s" and "run_events 8 evs s = Inr s'"
  shows "framed L s' \<and>
         byte_stream 8 s' = byte_stream 8 s @ concat (map (word_bytes 1) (sampled_words 8 evs s)) \<and>
         currentWords s' = currentWords s + length (sampled_words 8 evs s)"
  using assms
proof (induction evs arbitrary: s)
  case Nil
  then show ?case by simp
next
  case (Cons e evs)
  show ?case
  proof (cases e)
    case ValidNeg
    have "framed L (resetSetupTime s)" "byte_stream 8 (resetSetupTime s) = byte_stream 8 s"
      "currentWords (resetSetupTime s) = currentWords s"
      using Cons.prems(3) by (simp_all add: framed_def resetSetupTime_def byte_stream_def)
    with Cons.IH [of "resetSetupTime s"] Cons.prems ValidNeg show ?thesis
      by simp
  next
    case (Posedge inp)
    with Cons.prems obtain s1 where s1: "updateInput 8 inp s = Inr s1"
      and rest: "run_events 8 evs s1 = Inr s'"
      by (auto split: sum.splits)
    from Cons.prems(1) Posedge have L: "packetLength inp = L" by simp
    note step = updateInput_8 [OF L Cons.prems(2,3) s1]
    note count = updateInput_8_count [OF L Cons.prems(2,3) s1]
    from Cons.prems(1) have "list_all (\<lambda>e. case e of Posedge inp \<Rightarrow> packetLength inp = L | ValidNeg \<Rightarrow> True) evs"
      by simp
    from Cons.IH [OF this Cons.prems(2) _ rest] step
    have ih: "framed L s'"
      "byte_stream 8 s' = byte_stream 8 s1 @ concat (map (word_bytes 1) (sampled_words 8 evs s1))"
      "currentWords s' = currentWords s1 + length (sampled_words 8 evs s1)"
      by simp_all
    from ih step count s1 Posedge show ?thesis
      by auto
  qed
qed

text \<open>
  Where a sample is one byte (width 8) and the packet length \<open>L > 0\<close> stays the same, a
  run that meets no transport fault has sent \<open>\<lfloor>samples / L\<rfloor>\<close> packets, each of \<open>L\<close> bytes;
  together they are the first bytes sampled, in the order of sampling, and fewer than
  \<open>L\<close> samples are left in the buffer. The flush of such a module never pops an empty
  buffer.
\<close>

lemma packets_width_8:
  assumes "list_all (\<lambda>e. case e of Posedge inp \<Rightarrow> packetLength inp = L | ValidNeg \<Rightarrow> True) evs"
    and "0 < L" and "Sig2Sock_new 8 maxW ready0 = Inr s0" and "simulate 8 maxW ready0 evs = Inr s"
  shows "length (packets s) = length (sampled_words 8 evs s0) div L"
    and "list_all (\<lambda>p. length p = L) (packets s)"
    and "concat (packets s) @ concat (map (word_bytes 1) (buffer s)) =
           concat (map (word_bytes 1) (sampled_words 8 evs s0))"
    and "length (buffer s) < L"
proof -
  from assms(3) have s0: "s0 = \<lparr>buffer = [], currentWords = 0, maxWords = maxW, setupTime = 1,
                             inputReady = ready0, packets = []\<rparr>"
    by (simp add: Sig2Sock_new_def)
  have f0: "framed L s0" "byte_stream 8 s0 = []" "currentWords s0 = 0"
    using assms(2) by (simp_all add: s0 framed_def byte_stream_def)
  from assms(3,4) have run: "run_events 8 evs s0 = Inr s"
    by (simp add: simulate_def)
  from run_events_8 [OF assms(1,2) f0(1) run] f0
  have r: "framed L s"
    "byte_stream 8 s = concat (map (word_bytes 1) (sampled_words 8 evs s0))"
    "currentWords s = length (sampled_words 8 evs s0)"
    by simp_all
  from r(1) show "list_all (\<lambda>p. length p = L) (packets s)" "length (buffer s) < L"
    by (simp_all add: framed_def)
  from r(2) show "concat (packets s) @ concat (map (word_bytes 1) (buffer s)) =
           concat (map (word_bytes 1) (sampled_words 8 evs s0))"
    by (simp add: byte_stream_def)
  from r(1,3) have "length (packets s) * L + length (buffer s) = length (sampled_words 8 evs s0)"
    "length (buffer s) < L"
    by (simp_all add: framed_def)
  then show "length (packets s) = length (sampled_words 8 evs s0) div L"
    by (metis add.commute div_mult_self3 div_less add_0 less_numeral_extra(3) assms(2))
qed

lemma flush_width_8_never_underruns:
  assumes "packetLength inp = L" and "0 < L"
  shows "flushBuffer 8 inp s \<noteq> Inl EmptyQueueAccess"
proof (cases "L \<le> length (buffer s)")
  case True
  have "pop_words L 1 (buffer s) [] =
          Inr (drop L (buffer s), [] @ concat (map (word_bytes 1) (take L (buffer s))))"
    by (rule pop_words_enough) (use True in simp_all)
  with assms show ?thesis
    by (simp add: flushBuffer_def)
next
  case False
  with assms show ?thesis
    by (simp add: flushBuffer_def)
qed

section \<open>Properties of the DMA driver\<close>

subsection \<open>The operations and the loop\<close>

lemma length_test_vector: "length test_vector = 10"
  by (simp add: test_vector_def)

lemma emit_fields [simp]:
  "burstMode (emit a s) = burstMode s" "mm2sOffset (emit a s) = mm2sOffset s"
  "s2mmOffset (emit a s) = s2mmOffset s" "testData (emit a s) = testData s"
  "trace (emit a s) = trace s @ [a]"
  by (simp_all add: emit_def)

lemma transact_fields [simp]:
  "burstMode (transact tp t s) = burstMode s" "mm2sOffset (transact tp t s) = mm2sOffset s"
  "s2mmOffset (transact tp t s) = s2mmOffset s" "testData (transact tp t s) = testData s"
  "trace (transact tp t s) = trace s @ [Transport t (ok (tp (length (trace s)) t))]"
  by (simp_all add: transact_def respond_def)

lemma enableIOC_fields [simp]:
  "burstMode (enableIOC tp c d ii s) = burstMode s" "mm2sOffset (enableIOC tp c d ii s) = mm2sOffset s"
  "s2mmOffset (enableIOC tp c d ii s) = s2mmOffset s" "testData (enableIOC tp c d ii s) = testData s"
  by (simp_all add: enableIOC_def Let_def)

lemma clearIOC_fields [simp]:
  "burstMode (clearIOC tp c d ii s) = burstMode s" "mm2sOffset (clearIOC tp c d ii s) = mm2sOffset s"
  "s2mmOffset (clearIOC tp c d ii s) = s2mmOffset s" "testData (clearIOC tp c d ii s) = testData s"
  by (simp_all add: clearIOC_def Let_def)

lemma sendDMAReq_fields [simp]:
  "burstMode (sendDMAReq tp c d s) = burstMode s"
  "testData (sendDMAReq tp c d s) = testData s"
  "mm2sOffset (sendDMAReq tp c d s) = (if d then mm2sOffset s else mm2sOffset s + dataSize_words s)"
  "s2mmOffset (sendDMAReq tp c d s) = (if d then s2mmOffset s + dataSize_words s else s2mmOffset s)"
  by (simp_all add: sendDMAReq_def Let_def dataSize_words_def)

lemma transfer_requests_append [simp]:
  "transfer_requests d (xs @ ys) = transfer_requests d xs + transfer_requests d ys"
  by (simp add: transfer_requests_def)

lemma transfer_requests_simps [simp]:
  "transfer_requests d [] = 0"
  "transfer_requests d (Wait_ps n # tr) = transfer_requests d tr"
  "transfer_requests d (WaitEvent e # tr) = transfer_requests d tr"
  "transfer_requests d (Notify e # tr) = transfer_requests d tr"
  "transfer_requests d (Print m # tr) = transfer_requests d tr"
  "transfer_requests d (Transport t b # tr) =
     (if cmd t = WRITE \<and> addr t = REG d LENGTH_REG 0 then 1 else 0) + transfer_requests d tr"
  by (simp_all add: transfer_requests_def is_request_def)

lemma sendDMAReq_requests:
  "transfer_requests d' (trace (sendDMAReq tp c d s)) =
     transfer_requests d' (trace s) + (if d' = d then 1 else 0)"
  by (simp add: sendDMAReq_def Let_def)

lemma enableIOC_requests [simp]:
  "transfer_requests d' (trace (enableIOC tp c d ii s)) = transfer_requests d' (trace s)"
  by (simp add: enableIOC_def Let_def)

lemma clearIOC_requests [simp]:
  "transfer_requests d' (trace (clearIOC tp c d ii s)) = transfer_requests d' (trace s)"
  by (simp add: clearIOC_def Let_def)

lemma transfer_body_fields [simp]:
  "burstMode (transfer_body tp c d s) = burstMode s"
  "testData (transfer_body tp c d s) = testData s"
  "mm2sOffset (transfer_body tp c d s) = (if d then mm2sOffset s else mm2sOffset s + dataSize_words s)"
  "s2mmOffset (transfer_body tp c d s) = (if d then s2mmOffset s + dataSize_words s else s2mmOffset s)"
  "transfer_requests d' (trace (transfer_body tp c d s)) =
     transfer_requests d' (trace s) + (if d' = d then 1 else 0)"
  by (simp_all add: transfer_body_def sendDMAReq_requests)

lemma transfer_body_offset_of [simp]:
  "offset_of d (transfer_body tp c d s) = offset_of d s + dataSize_words s"
  "offset_of (\<not> d) (transfer_body tp c d s) = offset_of (\<not> d) s"
  by (simp_all add: offset_of_def)

lemma transfer_loop_funpow:
  assumes "\<And>j. j < k \<Longrightarrow> offset_of d ((transfer_body tp c d ^^ j) s) < length (testData ((transfer_body tp c d ^^ j) s))"
    and "\<not> offset_of d ((transfer_body tp c d ^^ k) s) < length (testData ((transfer_body tp c d ^^ k) s))"
  shows "transfer_loop tp c d s = Some ((transfer_body tp c d ^^ k) s)"
  using assms
proof (induction k arbitrary: s)
  case 0
  then show ?case by (simp add: transfer_loop.simps)
next
  case (Suc k)
  from Suc.prems(1) [of 0] have g: "offset_of d s < length (testData s)" by simp
  have "transfer_loop tp c d (transfer_body tp c d s) =
          Some ((transfer_body tp c d ^^ k) (transfer_body tp c d s))"
  proof (rule Suc.IH)
    fix j assume "j < k"
    then have "Suc j < Suc k" by simp
    from Suc.prems(1) [OF this] show "offset_of d ((transfer_body tp c d ^^ j) (transfer_body tp c d s))
        < length (testData ((transfer_body tp c d ^^ j) (transfer_body tp c d s)))"
      by (simp add: funpow_swap1)
  next
    from Suc.prems(2) show "\<not> offset_of d ((transfer_body tp c d ^^ k) (transfer_body tp c d s))
        < length (testData ((transfer_body tp c d ^^ k) (transfer_body tp c d s)))"
      by (simp add: funpow_swap1)
  qed
  with g show ?case
    by (subst transfer_loop.simps) (simp add: funpow_swap1)
qed

lemma funpow_body_fields [simp]:
  "burstMode ((transfer_body tp c d ^^ k) s) = burstMode s"
  "testData ((transfer_body tp c d ^^ k) s) = testData s"
  "offset_of (\<not> d) ((transfer_body tp c d ^^ k) s) = offset_of (\<not> d) s"
  by (induction k) simp_all

lemma funpow_body_dataSize [simp]:
  "dataSize_words ((transfer_body tp c d ^^ k) s) = dataSize_words s"
  by (simp add: dataSize_words_def)

lemma funpow_body_offset [simp]:
  "offset_of d ((transfer_body tp c d ^^ k) s) = offset_of d s + k * dataSize_words s"
  by (induction k) simp_all

lemma funpow_body_requests [simp]:
  "transfer_requests d' (trace ((transfer_body tp c d ^^ k) s)) =
     transfer_requests d' (trace s) + (if d' = d then k else 0)"
  by (induction k) simp_all

text \<open>The loop ends when a request moves the offset: after as many iterations as it
  takes to reach the size of the test data.\<close>

lemma transfer_loop_terminates:
  assumes "0 < dataSize_words s"
  shows "transfer_loop tp c d s =
     Some ((transfer_body tp c d ^^ ((length (testData s) - offset_of d s + dataSize_words s - 1) div dataSize_words s)) s)"
proof (rule transfer_loop_funpow)
  let ?w = "dataSize_words s" and ?n = "length (testData s)" and ?o = "offset_of d s"
  let ?k = "(?n - ?o + ?w - 1) div ?w"
  fix j assume "j < ?k"
  then have "Suc j \<le> ?k" by simp
  then have "Suc j * ?w \<le> ?k * ?w" by (rule mult_le_mono1)
  also have "\<dots> \<le> ?n - ?o + ?w - 1" by simp
  finally have "j * ?w < ?n - ?o" using assms by simp
  then show "offset_of d ((transfer_body tp c d ^^ j) s) < length (testData ((transfer_body tp c d ^^ j) s))"
    by simp
next
  let ?w = "dataSize_words s" and ?n = "length (testData s)" and ?o = "offset_of d s"
  let ?k = "(?n - ?o + ?w - 1) div ?w"
  have "?n - ?o + ?w - 1 < (?k + 1) * ?w"
    using dividend_less_div_times [OF assms, of "?n - ?o + ?w - 1"] by simp
  then have "?n - ?o \<le> ?k * ?w" using assms by simp
  then show "\<not> offset_of d ((transfer_body tp c d ^^ ?k) s) < length (testData ((transfer_body tp c d ^^ ?k) s))"
    by simp
qed


lemma loop_states_simps [simp]:
  "loop_states tp c d s 0 = s"
  "loop_states tp c d s (Suc k) =
     (if offset_of d (loop_states tp c d s k) < length (testData (loop_states tp c d s k))
      then transfer_body tp c d (loop_states tp c d s k) else loop_states tp c d s k)"
  by (simp_all add: loop_states_def)

lemma loop_states_fields [simp]:
  "burstMode (loop_states tp c d s k) = burstMode s"
  "testData (loop_states tp c d s k) = testData s"
  "offset_of (\<not> d) (loop_states tp c d s k) = offset_of (\<not> d) s"
  by (induction k) simp_all

lemma loop_states_dataSize [simp]:
  "dataSize_words (loop_states tp c d s k) = dataSize_words s"
  by (simp add: dataSize_words_def)

lemma loop_states_mono:
  "offset_of d (loop_states tp c d s k) \<le> offset_of d (loop_states tp c d s (Suc k))"
  by simp

text \<open>While the loop's condition has held so far, the states at the loop head are the
  iterates of the body.\<close>

lemma loop_states_eq_funpow:
  assumes "\<And>j. j < k \<Longrightarrow> offset_of d s + j * dataSize_words s < length (testData s)"
  shows "loop_states tp c d s k = (transfer_body tp c d ^^ k) s"
  using assms
proof (induction k)
  case 0
  then show ?case by simp
next
  case (Suc k)
  then have "loop_states tp c d s k = (transfer_body tp c d ^^ k) s" by simp
  moreover from Suc.prems [of k] have "offset_of d s + k * dataSize_words s < length (testData s)"
    by simp
  ultimately show ?case by simp
qed

lemma loop_states_stable:
  assumes "\<not> offset_of d (loop_states tp c d s k) < length (testData s)"
  shows "loop_states tp c d s (k + m) = loop_states tp c d s k"
  using assms by (induction m) simp_all

lemma dataSize_words_10:
  "length (testData s) = 10 \<Longrightarrow> dataSize_words s = (if burstMode s then 10 else 1)"
  by (simp add: dataSize_words_def)

text \<open>With ten samples and the offset at 0 the loop ends: after ten passes one word at a
  time, after one pass in burst mode.\<close>

lemma loop_10:
  assumes "length (testData s) = 10" and "offset_of d s = 0"
  shows "transfer_loop tp c d s = Some (loop_states tp c d s 10)"
    and "loop_states tp c d s 10 = (transfer_body tp c d ^^ (if burstMode s then 1 else 10)) s"
    and "offset_of d (loop_states tp c d s 10) = 10"
    and "transfer_requests d' (trace (loop_states tp c d s 10)) =
           transfer_requests d' (trace s) + (if d' = d then (if burstMode s then 1 else 10) else 0)"
proof -
  let ?K = "if burstMode s then 1 else 10 :: nat"
  have w: "dataSize_words s = (if burstMode s then 10 else 1)"
    using assms by (simp add: dataSize_words_10)
  have K: "loop_states tp c d s ?K = (transfer_body tp c d ^^ ?K) s"
    by (rule loop_states_eq_funpow) (use assms w in \<open>auto split: if_splits\<close>)
  have "\<not> offset_of d (loop_states tp c d s ?K) < length (testData s)"
    using assms w by (simp add: K)
  from loop_states_stable [OF this, of "10 - ?K"]
  have st: "loop_states tp c d s 10 = loop_states tp c d s ?K"
    by (simp split: if_splits)
  show 2: "loop_states tp c d s 10 = (transfer_body tp c d ^^ ?K) s"
    using st K by simp
  have "transfer_loop tp c d s = Some ((transfer_body tp c d ^^ ?K) s)"
    using transfer_loop_terminates [of s tp c d] assms w by (simp split: if_splits)
  then show "transfer_loop tp c d s = Some (loop_states tp c d s 10)"
    using 2 by simp
  show "offset_of d (loop_states tp c d s 10) = 10"
    using assms w by (simp add: 2)
  show "transfer_requests d' (trace (loop_states tp c d s 10)) =
           transfer_requests d' (trace s) + (if d' = d then (if burstMode s then 1 else 10) else 0)"
    by (simp add: 2)
qed

text \<open>The offset of a flow at the head of its loop stays within the test data.\<close>

lemma loop_states_bound:
  assumes "length (testData s) = 10" and "offset_of d s = 0"
  shows "offset_of d (loop_states tp c d s k) \<le> 10"
proof -
  have "offset_of d (loop_states tp c d s k) \<le> 10 \<and>
        (burstMode s \<longrightarrow> offset_of d (loop_states tp c d s k) = 0 \<or>
                              offset_of d (loop_states tp c d s k) = 10)"
    using assms by (induction k) (auto simp: dataSize_words_10)
  then show ?thesis by simp
qed


subsection \<open>The memory-to-stream flow\<close>

lemma testRun_unfold:
  "testRun tp c s =
     (case testRun_entry tp c s of
        Inl e \<Rightarrow> Some (Inl e)
      | Inr s0 \<Rightarrow>
          (case transfer_loop tp c False s0 of
             None \<Rightarrow> None
           | Some s2 \<Rightarrow> Some (Inr (emit (Print ''Test data consumed!'') s2))))"
  by (simp add: testRun_def testRun_entry_def split: sum.splits)

lemma loadData_new:
  "loadData tp c (emit (Wait_ps 20000) (DMATester_new b)) =
     (if ok (tp 1 (load_transaction c))
      then Inr (emit (Notify dataLoaded)
                  (transact tp (load_transaction c)
                     ((emit (Wait_ps 20000) (DMATester_new b))\<lparr>testData := test_vector\<rparr>)))
      else Inl (LoadWriteFailed,
                transact tp (load_transaction c)
                  ((emit (Wait_ps 20000) (DMATester_new b))\<lparr>testData := test_vector\<rparr>)))"
  by (simp add: loadData_def Let_def load_transaction_def test_vector_def respond_def
      DMATester_new_def emit_def)

lemma testRun_entry_fault:
  assumes "\<not> ok (tp 1 (load_transaction c))"
  shows "\<exists>s. testRun_entry tp c (DMATester_new b) = Inl (LoadWriteFailed, s) \<and>
             mm2sOffset s = 0 \<and> s2mmOffset s = 0 \<and> testData s = test_vector"
  using assms by (simp add: testRun_entry_def loadData_new) (simp add: DMATester_new_def)

lemma testRun_entry_ok:
  assumes "ok (tp 1 (load_transaction c))"
  shows "\<exists>s0. testRun_entry tp c (DMATester_new b) = Inr s0 \<and>
              mm2sOffset s0 = 0 \<and> s2mmOffset s0 = 0 \<and> testData s0 = test_vector \<and>
              burstMode s0 = b \<and> transfer_requests d (trace s0) = 0 \<and> printed (trace s0) = []"
  using assms
  by (simp add: testRun_entry_def loadData_new)
     (simp add: DMATester_new_def load_transaction_def enableIOC_def Let_def printed_def)

lemma printed_append [simp]: "printed (xs @ ys) = printed xs @ printed ys"
  by (simp add: printed_def)

lemma printed_simps [simp]:
  "printed [] = []"
  "printed (Wait_ps n # tr) = printed tr"
  "printed (WaitEvent e # tr) = printed tr"
  "printed (Notify e # tr) = printed tr"
  "printed (Print m # tr) = m # printed tr"
  "printed (Transport t b # tr) = printed tr"
  by (simp_all add: printed_def)

lemma transfer_body_printed [simp]:
  "printed (trace (transfer_body tp c d s)) = printed (trace s)"
  by (simp add: transfer_body_def clearIOC_def sendDMAReq_def Let_def)

lemma loop_states_printed [simp]:
  "printed (trace (loop_states tp c d s k)) = printed (trace s)"
  by (induction k) simp_all

subsection \<open>The stream-to-memory flow\<close>

lemma verifyMemWriteback_entry_new:
  "mm2sOffset (verifyMemWriteback_entry tp c loaded (DMATester_new b)) = 0"
  "s2mmOffset (verifyMemWriteback_entry tp c loaded (DMATester_new b)) = 0"
  "testData (verifyMemWriteback_entry tp c loaded (DMATester_new b)) = loaded"
  "burstMode (verifyMemWriteback_entry tp c loaded (DMATester_new b)) = b"
  "trace (verifyMemWriteback_entry tp c loaded (DMATester_new b)) =
     [Wait_ps 20000,
      Transport \<lparr>cmd = READ, addr = REG True CR_REG 0, payload = [], nbytes = 4\<rparr>
        (ok (tp 1 \<lparr>cmd = READ, addr = REG True CR_REG 0, payload = [], nbytes = 4\<rparr>)),
      Transport \<lparr>cmd = WRITE, addr = REG True CR_REG 0,
                 payload = [rdata (tp 1 \<lparr>cmd = READ, addr = REG True CR_REG 0, payload = [],
                                          nbytes = 4\<rparr>) 0 OR AXIDMA_CR_IOC_IRQ_EN c],
                 nbytes = 4\<rparr>
        (ok (tp 2 \<lparr>cmd = WRITE, addr = REG True CR_REG 0,
                 payload = [rdata (tp 1 \<lparr>cmd = READ, addr = REG True CR_REG 0, payload = [],
                                          nbytes = 4\<rparr>) 0 OR AXIDMA_CR_IOC_IRQ_EN c],
                 nbytes = 4\<rparr>)),
      WaitEvent dataLoaded]"
  by (simp_all add: verifyMemWriteback_entry_def DMATester_new_def enableIOC_def Let_def
      respond_def emit_def transact_def numeral_2_eq_2)

lemma verifyMemWriteback_unfold:
  "verifyMemWriteback tp c loaded s =
     (case transfer_loop tp c True (verifyMemWriteback_entry tp c loaded s) of
        None \<Rightarrow> None
      | Some s3 \<Rightarrow>
          (let t = \<lparr>cmd = READ,
                     addr = MEM (MEM_BASE_ADDR c + of_nat (length (testData s3) * 4)),
                     payload = [], nbytes = length (testData s3) * 4\<rparr>;
               memData = map (rdata (respond tp t s3)) [0..<length (testData s3)];
               s4 = transact tp t s3
           in if \<not> ok (respond tp t s3) then Some (Inl (WritebackReadFailed, s4))
              else (case compare_from 0 (testData s4) memData of
                      Mismatch ii \<Rightarrow>
                        Some (Inr (emit (Print ''Writeback data doesn't match test data'') s4))
                    | AllMatch \<Rightarrow> Some (Inr s4)
                    | AtThrows \<Rightarrow> Some (Inl (OutOfRange, s4)))))"
  by (simp add: verifyMemWriteback_def verifyMemWriteback_entry_def Let_def)

text \<open>The state in which the stream-to-memory flow leaves its loop, for the loaded test
  vector.\<close>

lemma verifyMemWriteback_10:
  fixes tp c b
  defines "s3 \<equiv> loop_states tp c True (verifyMemWriteback_entry tp c test_vector (DMATester_new b)) 10"
  defines "r \<equiv> respond tp (readback_transaction c) s3"
  defines "s4 \<equiv> transact tp (readback_transaction c) s3"
  shows "verifyMemWriteback tp c test_vector (DMATester_new b) =
     (if \<not> ok r then Some (Inl (WritebackReadFailed, s4))
      else (case compare_from 0 test_vector (map (rdata r) [0..<10]) of
              Mismatch ii \<Rightarrow> Some (Inr (emit (Print ''Writeback data doesn't match test data'') s4))
            | AllMatch \<Rightarrow> Some (Inr s4)
            | AtThrows \<Rightarrow> Some (Inl (OutOfRange, s4))))"
proof -
  let ?s0 = "verifyMemWriteback_entry tp c test_vector (DMATester_new b)"
  have "length (testData ?s0) = 10" "offset_of True ?s0 = 0"
    by (simp_all add: verifyMemWriteback_entry_new length_test_vector offset_of_def)
  from loop_10(1) [OF this] have "transfer_loop tp c True ?s0 = Some s3"
    by (simp add: s3_def)
  moreover have "testData s3 = test_vector"
    by (simp add: s3_def verifyMemWriteback_entry_new)
  ultimately show ?thesis
    unfolding r_def s4_def readback_transaction_def
    by (simp add: verifyMemWriteback_unfold Let_def length_test_vector)
qed


subsection \<open>Transfer requests of the memory-to-stream flow\<close>

lemma sendMM2SReq_step:
  "mm2sOffset (sendMM2SReq tp c s) = mm2sOffset s + dataSize_words s"
  "transfer_requests False (trace (sendMM2SReq tp c s)) = transfer_requests False (trace s) + 1"
  by (simp_all add: sendMM2SReq_def sendDMAReq_requests)

text \<open>
  C4. The test vector has 10 elements and \<open>mm2sOffset\<close> starts at 0. When the write of
  \<open>loadData\<close> (the action at position 1 of the flow's trace) is answered ok, a run of \<open>testRun\<close> without burst mode ends normally
  with exactly 10 transfer requests and \<open>mm2sOffset = 10\<close>; at the head of the loop
  after \<open>k \<le> 10\<close> passes the offset is \<open>k\<close> and \<open>k\<close> requests have been issued, each
  request advancing the offset by one word. A run in burst mode ends normally with
  exactly 1 transfer request, which takes \<open>mm2sOffset\<close> from 0 to 10.
\<close>

theorem testRun_transfer_requests:
  assumes "ok (tp 1 (load_transaction c))"
  shows "mm2sOffset (DMATester_new False) = 0 \<and> mm2sOffset (DMATester_new True) = 0 \<and>
         (\<exists>s0 s. testRun_entry tp c (DMATester_new False) = Inr s0 \<and>
            (\<forall>k\<le>10. mm2sOffset (loop_states tp c False s0 k) = k \<and>
                     transfer_requests False (trace (loop_states tp c False s0 k)) = k) \<and>
            testRun tp c (DMATester_new False) = Some (Inr s) \<and>
            transfer_requests False (trace s) = 10 \<and> mm2sOffset s = 10) \<and>
         (\<exists>s0 s. testRun_entry tp c (DMATester_new True) = Inr s0 \<and>
            mm2sOffset s0 = 0 \<and> transfer_requests False (trace s0) = 0 \<and>
            mm2sOffset (loop_states tp c False s0 1) = 10 \<and>
            transfer_requests False (trace (loop_states tp c False s0 1)) = 1 \<and>
            testRun tp c (DMATester_new True) = Some (Inr s) \<and>
            transfer_requests False (trace s) = 1 \<and> mm2sOffset s = 10) \<and>
         (\<forall>s. \<not> burstMode s \<longrightarrow>
            mm2sOffset (sendMM2SReq tp c s) = mm2sOffset s + 1 \<and>
            transfer_requests False (trace (sendMM2SReq tp c s)) =
              transfer_requests False (trace s) + 1) \<and>
         (\<forall>s. burstMode s \<and> length (testData s) = 10 \<longrightarrow>
            mm2sOffset (sendMM2SReq tp c s) = mm2sOffset s + 10 \<and>
            transfer_requests False (trace (sendMM2SReq tp c s)) =
              transfer_requests False (trace s) + 1)"
proof -
  have new: "mm2sOffset (DMATester_new False) = 0 \<and> mm2sOffset (DMATester_new True) = 0"
    by (simp add: DMATester_new_def)
  have run: "\<exists>s0 s. testRun_entry tp c (DMATester_new b) = Inr s0 \<and>
            mm2sOffset s0 = 0 \<and> transfer_requests False (trace s0) = 0 \<and>
            (\<forall>k\<le>10. \<not> b \<longrightarrow> mm2sOffset (loop_states tp c False s0 k) = k \<and>
                     transfer_requests False (trace (loop_states tp c False s0 k)) = k) \<and>
            (b \<longrightarrow> mm2sOffset (loop_states tp c False s0 1) = 10 \<and>
                   transfer_requests False (trace (loop_states tp c False s0 1)) = 1) \<and>
            testRun tp c (DMATester_new b) = Some (Inr s) \<and>
            transfer_requests False (trace s) = (if b then 1 else 10) \<and> mm2sOffset s = 10" for b
  proof -
    from testRun_entry_ok [of tp c b False] assms obtain s0 where
      s0: "testRun_entry tp c (DMATester_new b) = Inr s0" "mm2sOffset s0 = 0"
        "testData s0 = test_vector" "burstMode s0 = b" "transfer_requests False (trace s0) = 0"
      by blast
    have len: "length (testData s0) = 10" and off: "offset_of False s0 = 0"
      using s0 by (simp_all add: length_test_vector offset_of_def)
    have w: "dataSize_words s0 = (if b then 10 else 1)"
      using len s0 by (simp add: dataSize_words_10)
    have head: "loop_states tp c False s0 k = (transfer_body tp c False ^^ k) s0"
      if "k \<le> (if b then 1 else 10)" for k
      by (rule loop_states_eq_funpow) (use that len off w in \<open>auto split: if_splits\<close>)
    have steps: "mm2sOffset (loop_states tp c False s0 k) = k \<and>
                 transfer_requests False (trace (loop_states tp c False s0 k)) = k"
      if "k \<le> 10" "\<not> b" for k
      using head [of k] that funpow_body_offset [where d = False and tp = tp and c = c and k = k and s = s0] off w s0
      by (simp add: offset_of_def)
    have burst: "mm2sOffset (loop_states tp c False s0 1) = 10 \<and>
                 transfer_requests False (trace (loop_states tp c False s0 1)) = 1" if b
      using head [of 1] that funpow_body_offset [where d = False and tp = tp and c = c and k = 1 and s = s0] off w s0
      by (simp add: offset_of_def)
    have fin: "testRun tp c (DMATester_new b) =
                 Some (Inr (emit (Print ''Test data consumed!'') (loop_states tp c False s0 10)))"
      using s0 loop_10(1) [OF len off] by (simp add: testRun_unfold)
    have "mm2sOffset (loop_states tp c False s0 10) = 10"
      using loop_10(3) [OF len off, where tp = tp and c = c] by (simp add: offset_of_def)
    moreover have "transfer_requests False (trace (loop_states tp c False s0 10)) =
                     (if b then 1 else 10)"
      using loop_10(4) [OF len off, where d' = False and tp = tp and c = c] s0 by simp
    ultimately show ?thesis
      using s0 steps burst fin by auto
  qed
  have one: "\<forall>s. \<not> burstMode s \<longrightarrow>
            mm2sOffset (sendMM2SReq tp c s) = mm2sOffset s + 1 \<and>
            transfer_requests False (trace (sendMM2SReq tp c s)) =
              transfer_requests False (trace s) + 1"
    by (simp add: sendMM2SReq_step dataSize_words_def)
  have ten: "\<forall>s. burstMode s \<and> length (testData s) = 10 \<longrightarrow>
            mm2sOffset (sendMM2SReq tp c s) = mm2sOffset s + 10 \<and>
            transfer_requests False (trace (sendMM2SReq tp c s)) =
              transfer_requests False (trace s) + 1"
    by (simp add: sendMM2SReq_step dataSize_words_10)
  from run [of False] run [of True] new one ten show ?thesis
    by (simp only: simp_thms if_True if_False) blast
qed

theorem testRun_transfer_requests_witness:
  "ok (tp_ok 1 (load_transaction regs0)) \<and>
   (\<exists>s. testRun tp_ok regs0 (DMATester_new False) = Some (Inr s) \<and>
        transfer_requests False (trace s) = 10 \<and> mm2sOffset s = 10) \<and>
   (\<exists>s. testRun tp_ok regs0 (DMATester_new True) = Some (Inr s) \<and>
        transfer_requests False (trace s) = 1 \<and> mm2sOffset s = 10)"
proof -
  have h: "ok (tp_ok 1 (load_transaction regs0))"
    by (simp add: tp_ok_def)
  from testRun_transfer_requests [of tp_ok regs0] h show ?thesis
    by blast
qed

subsection \<open>The transfer offsets\<close>

text \<open>
  C8. Both offsets are 0 in a new driver. In the memory-to-stream flow, whether
  \<open>loadData\<close> fails (the flow ends with both offsets 0) or not, and in the
  stream-to-memory flow, in burst mode and without it: the flow's offset is 0 when the
  loop is entered; from one pass of the loop to the next it never decreases; at every
  pass it is at most the size of the test data; the other direction's offset is not
  touched; and the loop ends, with the offset equal to the size of the test data.
  Within a pass only \<open>sendDMAReq\<close> writes an offset: the wait, \<open>clearIOC\<close> and
  \<open>enableIOC\<close> leave both as they are.
\<close>

theorem transfer_offsets_invariant:
  "mm2sOffset (DMATester_new b) = 0 \<and> s2mmOffset (DMATester_new b) = 0 \<and>
   (case testRun_entry tp c (DMATester_new b) of
      Inl (e, s) \<Rightarrow>
        testRun tp c (DMATester_new b) = Some (Inl (e, s)) \<and>
        mm2sOffset s = 0 \<and> s2mmOffset s = 0
    | Inr s0 \<Rightarrow>
        mm2sOffset s0 = 0 \<and>
        (\<forall>k. mm2sOffset (loop_states tp c False s0 k) \<le> mm2sOffset (loop_states tp c False s0 (Suc k)) \<and>
             mm2sOffset (loop_states tp c False s0 k) \<le> length (testData (loop_states tp c False s0 k)) \<and>
             s2mmOffset (loop_states tp c False s0 k) = s2mmOffset s0) \<and>
        transfer_loop tp c False s0 = Some (loop_states tp c False s0 10) \<and>
        mm2sOffset (loop_states tp c False s0 10) = length (testData (loop_states tp c False s0 10))) \<and>
   (let s0 = verifyMemWriteback_entry tp c test_vector (DMATester_new b) in
      s2mmOffset s0 = 0 \<and>
      (\<forall>k. s2mmOffset (loop_states tp c True s0 k) \<le> s2mmOffset (loop_states tp c True s0 (Suc k)) \<and>
           s2mmOffset (loop_states tp c True s0 k) \<le> length (testData (loop_states tp c True s0 k)) \<and>
           mm2sOffset (loop_states tp c True s0 k) = mm2sOffset s0) \<and>
      transfer_loop tp c True s0 = Some (loop_states tp c True s0 10) \<and>
      s2mmOffset (loop_states tp c True s0 10) = length (testData (loop_states tp c True s0 10))) \<and>
   (\<forall>s d d' ii a.
      offset_of d' (emit a s) = offset_of d' s \<and>
      offset_of d' (enableIOC tp c d ii s) = offset_of d' s \<and>
      offset_of d' (clearIOC tp c d ii s) = offset_of d' s \<and>
      offset_of d' (transfer_body tp c d s) = offset_of d' (sendDMAReq tp c d s))"
proof -
  have inv: "offset_of d s0 = 0 \<and>
      (\<forall>k. offset_of d (loop_states tp c d s0 k) \<le> offset_of d (loop_states tp c d s0 (Suc k)) \<and>
           offset_of d (loop_states tp c d s0 k) \<le> length (testData (loop_states tp c d s0 k)) \<and>
           offset_of (\<not> d) (loop_states tp c d s0 k) = offset_of (\<not> d) s0) \<and>
      transfer_loop tp c d s0 = Some (loop_states tp c d s0 10) \<and>
      offset_of d (loop_states tp c d s0 10) = length (testData (loop_states tp c d s0 10))"
    if "testData s0 = test_vector" "offset_of d s0 = 0" for d s0
  proof -
    have len: "length (testData s0) = 10"
      using that by (simp add: length_test_vector)
    show ?thesis
      using that(2) loop_states_mono [of d tp c s0] loop_states_bound [OF len that(2), of tp c]
        loop_10(1) [OF len that(2), of tp c] loop_10(3) [OF len that(2), where tp = tp and c = c]
      by (simp add: len)
  qed
  have new: "mm2sOffset (DMATester_new b) = 0 \<and> s2mmOffset (DMATester_new b) = 0"
    by (simp add: DMATester_new_def)
  have mm2s: "case testRun_entry tp c (DMATester_new b) of
      Inl (e, s) \<Rightarrow>
        testRun tp c (DMATester_new b) = Some (Inl (e, s)) \<and>
        mm2sOffset s = 0 \<and> s2mmOffset s = 0
    | Inr s0 \<Rightarrow>
        mm2sOffset s0 = 0 \<and>
        (\<forall>k. mm2sOffset (loop_states tp c False s0 k) \<le> mm2sOffset (loop_states tp c False s0 (Suc k)) \<and>
             mm2sOffset (loop_states tp c False s0 k) \<le> length (testData (loop_states tp c False s0 k)) \<and>
             s2mmOffset (loop_states tp c False s0 k) = s2mmOffset s0) \<and>
        transfer_loop tp c False s0 = Some (loop_states tp c False s0 10) \<and>
        mm2sOffset (loop_states tp c False s0 10) = length (testData (loop_states tp c False s0 10))"
  proof (cases "ok (tp 1 (load_transaction c))")
    case True
    from testRun_entry_ok [of tp c b False] True obtain s0 where
      s0: "testRun_entry tp c (DMATester_new b) = Inr s0" "mm2sOffset s0 = 0"
        "testData s0 = test_vector"
      by blast
    then have "testData s0 = test_vector" "offset_of False s0 = 0"
      by (simp_all add: offset_of_def)
    from inv [OF this] s0(1) show ?thesis
      by (simp add: offset_of_def)
  next
    case False
    from testRun_entry_fault [of tp c b] False show ?thesis
      by (auto simp: testRun_unfold)
  qed
  have s2mm: "let s0 = verifyMemWriteback_entry tp c test_vector (DMATester_new b) in
      s2mmOffset s0 = 0 \<and>
      (\<forall>k. s2mmOffset (loop_states tp c True s0 k) \<le> s2mmOffset (loop_states tp c True s0 (Suc k)) \<and>
           s2mmOffset (loop_states tp c True s0 k) \<le> length (testData (loop_states tp c True s0 k)) \<and>
           mm2sOffset (loop_states tp c True s0 k) = mm2sOffset s0) \<and>
      transfer_loop tp c True s0 = Some (loop_states tp c True s0 10) \<and>
      s2mmOffset (loop_states tp c True s0 10) = length (testData (loop_states tp c True s0 10))"
  proof -
    let ?s0 = "verifyMemWriteback_entry tp c test_vector (DMATester_new b)"
    have "testData ?s0 = test_vector" "offset_of True ?s0 = 0"
      by (simp_all add: verifyMemWriteback_entry_new offset_of_def)
    from inv [OF this] show ?thesis
      by (simp add: offset_of_def Let_def)
  qed
  have frame: "\<forall>s d d' ii a.
      offset_of d' (emit a s) = offset_of d' s \<and>
      offset_of d' (enableIOC tp c d ii s) = offset_of d' s \<and>
      offset_of d' (clearIOC tp c d ii s) = offset_of d' s \<and>
      offset_of d' (transfer_body tp c d s) = offset_of d' (sendDMAReq tp c d s)"
    by (simp add: offset_of_def)
  from new mm2s s2mm frame show ?thesis by (intro conjI) simp_all
qed

theorem transfer_offsets_invariant_witness:
  "\<exists>s0. testRun_entry tp_ok regs0 (DMATester_new False) = Inr s0 \<and>
      mm2sOffset s0 = 0 \<and>
      mm2sOffset (loop_states tp_ok regs0 False s0 3) \<le> mm2sOffset (loop_states tp_ok regs0 False s0 (Suc 3)) \<and>
      mm2sOffset (loop_states tp_ok regs0 False s0 3) \<le> length (testData (loop_states tp_ok regs0 False s0 3)) \<and>
      transfer_loop tp_ok regs0 False s0 = Some (loop_states tp_ok regs0 False s0 10) \<and>
      mm2sOffset (loop_states tp_ok regs0 False s0 10) = length (testData (loop_states tp_ok regs0 False s0 10))"
proof -
  have "ok (tp_ok 1 (load_transaction regs0))"
    by (simp add: tp_ok_def)
  with testRun_entry_ok [of tp_ok regs0 False False] obtain s0 where
    s0: "testRun_entry tp_ok regs0 (DMATester_new False) = Inr s0"
    by blast
  from transfer_offsets_invariant [of False tp_ok regs0]
  have "case testRun_entry tp_ok regs0 (DMATester_new False) of
      Inl (e, s) \<Rightarrow>
        testRun tp_ok regs0 (DMATester_new False) = Some (Inl (e, s)) \<and>
        mm2sOffset s = 0 \<and> s2mmOffset s = 0
    | Inr s0 \<Rightarrow>
        mm2sOffset s0 = 0 \<and>
        (\<forall>k. mm2sOffset (loop_states tp_ok regs0 False s0 k) \<le> mm2sOffset (loop_states tp_ok regs0 False s0 (Suc k)) \<and>
             mm2sOffset (loop_states tp_ok regs0 False s0 k) \<le> length (testData (loop_states tp_ok regs0 False s0 k)) \<and>
             s2mmOffset (loop_states tp_ok regs0 False s0 k) = s2mmOffset s0) \<and>
        transfer_loop tp_ok regs0 False s0 = Some (loop_states tp_ok regs0 False s0 10) \<and>
        mm2sOffset (loop_states tp_ok regs0 False s0 10) = length (testData (loop_states tp_ok regs0 False s0 10))"
    by blast
  with s0 have "mm2sOffset s0 = 0 \<and>
        (\<forall>k. mm2sOffset (loop_states tp_ok regs0 False s0 k) \<le> mm2sOffset (loop_states tp_ok regs0 False s0 (Suc k)) \<and>
             mm2sOffset (loop_states tp_ok regs0 False s0 k) \<le> length (testData (loop_states tp_ok regs0 False s0 k)) \<and>
             s2mmOffset (loop_states tp_ok regs0 False s0 k) = s2mmOffset s0) \<and>
        transfer_loop tp_ok regs0 False s0 = Some (loop_states tp_ok regs0 False s0 10) \<and>
        mm2sOffset (loop_states tp_ok regs0 False s0 10) = length (testData (loop_states tp_ok regs0 False s0 10))"
    by (simp del: loop_states_simps)
  with s0 show ?thesis by blast
qed

subsection \<open>Traces and the comparison loop\<close>

lemma transfer_body_prefix: "prefix (trace s) (trace (transfer_body tp c d s))"
  by (simp add: transfer_body_def clearIOC_def sendDMAReq_def Let_def)

lemma loop_states_prefix: "prefix (trace s) (trace (loop_states tp c d s k))"
proof (induction k)
  case 0
  show ?case by simp
next
  case (Suc k)
  from Suc transfer_body_prefix [of "loop_states tp c d s k" tp c d]
  have "prefix (trace s) (trace (transfer_body tp c d (loop_states tp c d s k)))"
    by (rule prefix_order.trans)
  with Suc show ?case by simp
qed

lemma take_prefix: "prefix xs ys \<Longrightarrow> take (length xs) ys = xs"
  by (auto simp: prefix_def)

text \<open>The outcome of the comparison when both vectors have the same length.\<close>

lemma compare_from_cases:
  assumes "length md = length td"
  shows "(compare_from ii td md = AllMatch \<and> (\<forall>j. ii \<le> j \<and> j < length td \<longrightarrow> \<not> float_ne (td ! j) (md ! j))) \<or>
         (\<exists>i. compare_from ii td md = Mismatch i \<and> ii \<le> i \<and> i < length td \<and>
              float_ne (td ! i) (md ! i) \<and> (\<forall>j. ii \<le> j \<and> j < i \<longrightarrow> \<not> float_ne (td ! j) (md ! j)))"
  using assms
proof (induction ii td md rule: compare_from.induct)
  case (1 ii td md)
  show ?case
  proof (cases "ii < length td")
    case False
    then show ?thesis by (auto simp: compare_from.simps)
  next
    case True
    show ?thesis
    proof (cases "float_ne (td ! ii) (md ! ii)")
      case ne: True
      with True 1(2) have "compare_from ii td md = Mismatch ii"
        by (simp add: compare_from.simps)
      with True ne show ?thesis by auto
    next
      case eq: False
      with True 1(2) have step: "compare_from ii td md = compare_from (ii + 1) td md"
        by (simp add: compare_from.simps)
      have below: "\<forall>j. ii \<le> j \<and> j < n \<longrightarrow> \<not> float_ne (td ! j) (md ! j)"
        if "\<forall>j. ii + 1 \<le> j \<and> j < n \<longrightarrow> \<not> float_ne (td ! j) (md ! j)" for n
      proof (intro allI impI)
        fix j assume "ii \<le> j \<and> j < n"
        with that eq show "\<not> float_ne (td ! j) (md ! j)"
          by (cases "j = ii") auto
      qed
      from 1(1) [OF True _ eq 1(2)] True 1(2)
      have "(compare_from (ii + 1) td md = AllMatch \<and> (\<forall>j. ii + 1 \<le> j \<and> j < length td \<longrightarrow> \<not> float_ne (td ! j) (md ! j))) \<or>
         (\<exists>i. compare_from (ii + 1) td md = Mismatch i \<and> ii + 1 \<le> i \<and> i < length td \<and>
              float_ne (td ! i) (md ! i) \<and> (\<forall>j. ii + 1 \<le> j \<and> j < i \<longrightarrow> \<not> float_ne (td ! j) (md ! j)))"
        by simp
      then show ?thesis
      proof
        assume "compare_from (ii + 1) td md = AllMatch \<and> (\<forall>j. ii + 1 \<le> j \<and> j < length td \<longrightarrow> \<not> float_ne (td ! j) (md ! j))"
        with step below [of "length td"] show ?thesis by simp
      next
        assume "\<exists>i. compare_from (ii + 1) td md = Mismatch i \<and> ii + 1 \<le> i \<and> i < length td \<and>
              float_ne (td ! i) (md ! i) \<and> (\<forall>j. ii + 1 \<le> j \<and> j < i \<longrightarrow> \<not> float_ne (td ! j) (md ! j))"
        then obtain i where i: "compare_from (ii + 1) td md = Mismatch i" "ii + 1 \<le> i" "i < length td"
              "float_ne (td ! i) (md ! i)" "\<forall>j. ii + 1 \<le> j \<and> j < i \<longrightarrow> \<not> float_ne (td ! j) (md ! j)"
          by blast
        from below [OF i(5)] have "\<forall>j. ii \<le> j \<and> j < i \<longrightarrow> \<not> float_ne (td ! j) (md ! j)" .
        with i step have "compare_from ii td md = Mismatch i \<and> ii \<le> i \<and> i < length td \<and>
              float_ne (td ! i) (md ! i) \<and> (\<forall>j. ii \<le> j \<and> j < i \<longrightarrow> \<not> float_ne (td ! j) (md ! j))"
          by simp
        then show ?thesis by blast
      qed
    qed
  qed
qed

lemma compare_from_first_mismatch:
  assumes "length md = length td" and "i < length td" and "float_ne (td ! i) (md ! i)"
    and "\<forall>j<i. \<not> float_ne (td ! j) (md ! j)"
  shows "compare_from 0 td md = Mismatch i"
proof -
  from compare_from_cases [OF assms(1), of 0] assms(2,3)
  obtain i' where i': "compare_from 0 td md = Mismatch i'" "i' < length td"
    "float_ne (td ! i') (md ! i')" "\<forall>j. j < i' \<longrightarrow> \<not> float_ne (td ! j) (md ! j)"
    by auto
  have "i' = i"
    using assms(3,4) i'(3,4) by (meson linorder_neqE_nat)
  with i'(1) show ?thesis by simp
qed

lemma compare_from_all_match:
  assumes "length md = length td" and "\<forall>j<length td. \<not> float_ne (td ! j) (md ! j)"
  shows "compare_from 0 td md = AllMatch"
  using compare_from_cases [OF assms(1), of 0] assms(2) by auto

lemma compare_from_ignores_rest:
  assumes "compare_from 0 td md = Mismatch i" and "length md = length td"
    and "length md' = length td" and "take (Suc i) md' = take (Suc i) md"
  shows "compare_from 0 td md' = Mismatch i"
proof -
  from compare_from_cases [OF assms(2), of 0] assms(1)
  have i: "i < length td" "float_ne (td ! i) (md ! i)" "\<forall>j<i. \<not> float_ne (td ! j) (md ! j)"
    by auto
  have same: "md' ! j = md ! j" if "j < Suc i" for j
    using that nth_take [of j "Suc i" md'] nth_take [of j "Suc i" md] assms(4) by simp
  have "float_ne (td ! i) (md' ! i)" "\<forall>j<i. \<not> float_ne (td ! j) (md' ! j)"
    using i same by simp_all
  with assms(3) i(1) show ?thesis
    by (intro compare_from_first_mismatch) simp_all
qed

lemma final_trace:
  fixes tp c b
  defines "s0 \<equiv> verifyMemWriteback_entry tp c test_vector (DMATester_new b)"
  defines "s3 \<equiv> loop_states tp c True s0 10"
  shows "transfer_requests True (trace s3) = (if b then 1 else 10)"
    and "printed (trace s3) = []"
    and "take 4 (trace s3) = trace s0"
proof -
  have len: "length (testData s0) = 10" and off: "offset_of True s0 = 0"
    by (simp_all add: s0_def verifyMemWriteback_entry_new length_test_vector offset_of_def)
  have tr0: "transfer_requests True (trace s0) = 0" "printed (trace s0) = []" "length (trace s0) = 4"
    by (simp_all add: s0_def verifyMemWriteback_entry_new)
  show "transfer_requests True (trace s3) = (if b then 1 else 10)"
    using loop_10(4) [OF len off, where tp = tp and c = c and d' = True] tr0
    by (simp add: s3_def s0_def verifyMemWriteback_entry_new)
  show "printed (trace s3) = []"
    using tr0 by (simp add: s3_def)
  from take_prefix [OF loop_states_prefix [of s0 tp c True 10]] tr0
  show "take 4 (trace s3) = trace s0"
    by (simp add: s3_def)
qed

text \<open>The outcomes of the stream-to-memory flow on the loaded test vector.\<close>

lemma verifyMemWriteback_outcome:
  fixes tp c b
  defines "s3 \<equiv> loop_states tp c True (verifyMemWriteback_entry tp c test_vector (DMATester_new b)) 10"
  defines "r \<equiv> respond tp (readback_transaction c) s3"
  defines "s4 \<equiv> transact tp (readback_transaction c) s3"
  defines "md \<equiv> map (rdata r) [0..<10]"
  shows "\<not> ok r \<Longrightarrow>
           verifyMemWriteback tp c test_vector (DMATester_new b) = Some (Inl (WritebackReadFailed, s4))"
    and "ok r \<Longrightarrow> compare_from 0 test_vector md = AllMatch \<Longrightarrow>
           verifyMemWriteback tp c test_vector (DMATester_new b) = Some (Inr s4)"
    and "ok r \<Longrightarrow> compare_from 0 test_vector md = Mismatch i \<Longrightarrow>
           verifyMemWriteback tp c test_vector (DMATester_new b) =
             Some (Inr (emit (Print ''Writeback data doesn't match test data'') s4))"
    and "compare_from 0 test_vector md \<noteq> AtThrows"
proof -
  have eq: "verifyMemWriteback tp c test_vector (DMATester_new b) =
     (if \<not> ok r then Some (Inl (WritebackReadFailed, s4))
      else (case compare_from 0 test_vector md of
              Mismatch ii \<Rightarrow> Some (Inr (emit (Print ''Writeback data doesn't match test data'') s4))
            | AllMatch \<Rightarrow> Some (Inr s4)
            | AtThrows \<Rightarrow> Some (Inl (OutOfRange, s4))))"
    unfolding r_def s4_def md_def s3_def by (rule verifyMemWriteback_10)
  show "\<not> ok r \<Longrightarrow>
           verifyMemWriteback tp c test_vector (DMATester_new b) = Some (Inl (WritebackReadFailed, s4))"
    by (simp add: eq)
  show "ok r \<Longrightarrow> compare_from 0 test_vector md = AllMatch \<Longrightarrow>
           verifyMemWriteback tp c test_vector (DMATester_new b) = Some (Inr s4)"
    by (simp add: eq)
  show "ok r \<Longrightarrow> compare_from 0 test_vector md = Mismatch i \<Longrightarrow>
           verifyMemWriteback tp c test_vector (DMATester_new b) =
             Some (Inr (emit (Print ''Writeback data doesn't match test data'') s4))"
    by (simp add: eq)
  have "length md = length test_vector"
    by (simp add: md_def length_test_vector)
  from compare_from_cases [OF this, of 0] show "compare_from 0 test_vector md \<noteq> AtThrows"
    by auto
qed

lemma verifyMemWriteback_final:
  fixes tp c b
  defines "s3 \<equiv> loop_states tp c True (verifyMemWriteback_entry tp c test_vector (DMATester_new b)) 10"
  defines "s4 \<equiv> transact tp (readback_transaction c) s3"
  shows "\<exists>r. verifyMemWriteback tp c test_vector (DMATester_new b) = Some r \<and>
             (final_state r = s4 \<or>
              final_state r = emit (Print ''Writeback data doesn't match test data'') s4)"
proof -
  let ?r = "respond tp (readback_transaction c) s3"
  let ?md = "map (rdata ?r) [0..<10]"
  show ?thesis
  proof (cases "ok ?r")
    case False
    from verifyMemWriteback_outcome(1) [of tp c b] False show ?thesis
      by (simp add: s3_def s4_def final_state_def)
  next
    case True
    show ?thesis
    proof (cases "compare_from 0 test_vector ?md")
      case (Mismatch i)
      from verifyMemWriteback_outcome(3) [of tp c b i] True Mismatch show ?thesis
        by (simp add: s3_def s4_def final_state_def)
    next
      case AllMatch
      from verifyMemWriteback_outcome(2) [of tp c b] True AllMatch show ?thesis
        by (simp add: s3_def s4_def final_state_def)
    next
      case AtThrows
      with verifyMemWriteback_outcome(4) [of tp c b] show ?thesis
        by (simp add: s3_def)
    qed
  qed
qed

lemma verifyMemWriteback_trace:
  fixes tp c b
  defines "s0 \<equiv> verifyMemWriteback_entry tp c test_vector (DMATester_new b)"
  shows "\<exists>r. verifyMemWriteback tp c test_vector (DMATester_new b) = Some r \<and>
             take 4 (trace (final_state r)) = trace s0 \<and>
             transfer_requests True (trace (final_state r)) = (if b then 1 else 10)"
proof -
  let ?s3 = "loop_states tp c True s0 10"
  let ?s4 = "transact tp (readback_transaction c) ?s3"
  from verifyMemWriteback_final [of tp c b] obtain r where
    r: "verifyMemWriteback tp c test_vector (DMATester_new b) = Some r"
      "final_state r = ?s4 \<or>
       final_state r = emit (Print ''Writeback data doesn't match test data'') ?s4"
    unfolding s0_def by blast
  have t3: "take 4 (trace ?s3) = trace s0"
    unfolding s0_def by (rule final_trace(3))
  have "length (trace s0) = 4"
    by (simp add: s0_def verifyMemWriteback_entry_new)
  with t3 have l3: "4 \<le> length (trace ?s3)"
    by (metis length_take min.cobounded1)
  have tk: "take 4 (trace (final_state r)) = trace s0"
    using r(2) t3 l3 by auto
  have rq: "transfer_requests True (trace (final_state r)) = (if b then 1 else 10)"
    using r(2) final_trace(1) [of tp c b] by (auto simp: readback_transaction_def s0_def)
  from r(1) tk rq show ?thesis by blast
qed

subsection \<open>The order of the stream-to-memory flow\<close>

text \<open>
  C6, as the code has it. In every run of \<open>verifyMemWriteback\<close> on the loaded test
  vector, whatever the transport answers and in either mode, the flow ends, and its
  first four actions are the settle delay, the read of the S2MM control register, the
  write of that register with the interrupt-enable bit set, and only then the wait for
  \<open>dataLoaded\<close>. No transfer request is among these four: every S2MM transfer request
  (1 in burst mode, 10 otherwise) is issued after the wait.
\<close>

theorem verifyMemWriteback_enables_before_wait:
  "\<exists>r t1 k1 t2 k2.
     verifyMemWriteback tp c test_vector (DMATester_new b) = Some r \<and>
     take 4 (trace (final_state r)) =
       [Wait_ps 20000, Transport t1 k1, Transport t2 k2, WaitEvent dataLoaded] \<and>
     cmd t1 = READ \<and> addr t1 = REG True CR_REG 0 \<and>
     cmd t2 = WRITE \<and> addr t2 = REG True CR_REG 0 \<and>
     payload t2 = [rdata (tp 1 t1) 0 OR AXIDMA_CR_IOC_IRQ_EN c] \<and>
     transfer_requests True (take 4 (trace (final_state r))) = 0 \<and>
     transfer_requests True (trace (final_state r)) = (if b then 1 else 10)"
proof -
  from verifyMemWriteback_trace [of tp c b] obtain r where
    "verifyMemWriteback tp c test_vector (DMATester_new b) = Some r"
    "take 4 (trace (final_state r)) =
       trace (verifyMemWriteback_entry tp c test_vector (DMATester_new b))"
    "transfer_requests True (trace (final_state r)) = (if b then 1 else 10)"
    by blast
  then show ?thesis
    by (simp add: verifyMemWriteback_entry_new(5))
qed

text \<open>
  C6 as stated fails: with a transport that answers ok and a register map whose
  enable bit is \<open>0x1000\<close>, the read and the write of the S2MM control register are the
  second and third action of the flow, and the wait for \<open>dataLoaded\<close> is the fourth.
\<close>

theorem s2mm_control_access_precedes_wait:
  "map_option (take 4 \<circ> trace \<circ> final_state)
     (verifyMemWriteback tp_ok regs0 test_vector (DMATester_new True)) =
   Some [Wait_ps 20000,
         Transport \<lparr>cmd = READ, addr = REG True CR_REG 0, payload = [], nbytes = 4\<rparr> True,
         Transport \<lparr>cmd = WRITE, addr = REG True CR_REG 0, payload = [0x1000], nbytes = 4\<rparr> True,
         WaitEvent dataLoaded]"
proof -
  from verifyMemWriteback_trace [of tp_ok regs0 True] obtain r where
    "verifyMemWriteback tp_ok regs0 test_vector (DMATester_new True) = Some r"
    "take 4 (trace (final_state r)) =
       trace (verifyMemWriteback_entry tp_ok regs0 test_vector (DMATester_new True))"
    by blast
  then show ?thesis
    by (simp add: verifyMemWriteback_entry_new(5)) (simp add: tp_ok_def regs0_def)
qed

subsection \<open>Transaction status\<close>

text \<open>
  C3, as the code has it. Only the two memory transactions are checked. \<open>testRun\<close>
  ends, and it ends in the fault of \<open>loadData\<close> exactly when the write of the test data
  is not answered ok; \<open>verifyMemWriteback\<close> ends, and it ends in the fault of the
  readback exactly when the read of the writeback region is not answered ok. The
  status of a register transaction (the three writes of \<open>sendDMAReq\<close>, the control and
  status register accesses of \<open>enableIOC\<close> and \<open>clearIOC\<close>) is never read: whatever it
  is, the flow goes on and \<open>sendDMAReq\<close> advances the offset.
\<close>

theorem only_memory_transactions_checked:
  "(\<exists>r. testRun tp c (DMATester_new b) = Some r \<and>
        (if ok (tp 1 (load_transaction c)) then \<exists>s. r = Inr s
         else \<exists>s. r = Inl (LoadWriteFailed, s))) \<and>
   (\<exists>r. verifyMemWriteback tp c test_vector (DMATester_new b) = Some r \<and>
        (if ok (respond tp (readback_transaction c)
                  (loop_states tp c True
                     (verifyMemWriteback_entry tp c test_vector (DMATester_new b)) 10))
         then \<exists>s. r = Inr s
         else \<exists>s. r = Inl (WritebackReadFailed, s))) \<and>
   mm2sOffset (sendDMAReq tp c False s) = mm2sOffset s + dataSize_words s \<and>
   s2mmOffset (sendDMAReq tp c True s) = s2mmOffset s + dataSize_words s"
proof -
  have mm2s: "\<exists>r. testRun tp c (DMATester_new b) = Some r \<and>
        (if ok (tp 1 (load_transaction c)) then \<exists>s. r = Inr s
         else \<exists>s. r = Inl (LoadWriteFailed, s))"
  proof (cases "ok (tp 1 (load_transaction c))")
    case True
    from testRun_entry_ok [of tp c b False] True obtain s0 where
      s0: "testRun_entry tp c (DMATester_new b) = Inr s0" "mm2sOffset s0 = 0"
        "testData s0 = test_vector"
      by blast
    then have "length (testData s0) = 10" "offset_of False s0 = 0"
      by (simp_all add: offset_of_def length_test_vector)
    from loop_10(1) [OF this, of tp c] s0(1) True show ?thesis
      by (simp add: testRun_unfold)
  next
    case False
    from testRun_entry_fault [of tp c b] False show ?thesis
      by (auto simp: testRun_unfold)
  qed
  let ?r = "respond tp (readback_transaction c)
              (loop_states tp c True (verifyMemWriteback_entry tp c test_vector (DMATester_new b)) 10)"
  have s2mm: "\<exists>r. verifyMemWriteback tp c test_vector (DMATester_new b) = Some r \<and>
        (if ok ?r then \<exists>s. r = Inr s else \<exists>s. r = Inl (WritebackReadFailed, s))"
  proof (cases "ok ?r")
    case False
    from verifyMemWriteback_outcome(1) [of tp c b] False show ?thesis
      by simp
  next
    case True
    show ?thesis
    proof (cases "compare_from 0 test_vector (map (rdata ?r) [0..<10])")
      case (Mismatch i)
      from verifyMemWriteback_outcome(3) [of tp c b i] True Mismatch show ?thesis
        by simp
    next
      case AllMatch
      from verifyMemWriteback_outcome(2) [of tp c b] True AllMatch show ?thesis
        by simp
    next
      case AtThrows
      with verifyMemWriteback_outcome(4) [of tp c b] show ?thesis
        by simp
    qed
  qed
  from mm2s s2mm show ?thesis
    by simp
qed


lemma failed_register_transactions_append [simp]:
  "failed_register_transactions (xs @ ys) =
     failed_register_transactions xs @ failed_register_transactions ys"
  by (simp add: failed_register_transactions_def)

lemma failed_register_transactions_simps [simp]:
  "failed_register_transactions [] = []"
  "failed_register_transactions (Wait_ps n # tr) = failed_register_transactions tr"
  "failed_register_transactions (WaitEvent e # tr) = failed_register_transactions tr"
  "failed_register_transactions (Notify e # tr) = failed_register_transactions tr"
  "failed_register_transactions (Print m # tr) = failed_register_transactions tr"
  "failed_register_transactions (Transport t k # tr) =
     (if \<not> k \<and> (case addr t of REG _ _ _ \<Rightarrow> True | MEM _ \<Rightarrow> False) then [Transport t k] else []) @
     failed_register_transactions tr"
  by (simp_all add: failed_register_transactions_def)

lemma regfail_enableIOC:
  "length (failed_register_transactions (trace (enableIOC tp_regfail c d ii s))) =
     length (failed_register_transactions (trace s)) + 2"
  by (simp add: enableIOC_def Let_def) (simp add: tp_regfail_def)

lemma regfail_transfer_body:
  "length (failed_register_transactions (trace (transfer_body tp_regfail c d s))) =
     length (failed_register_transactions (trace s)) + 5"
  by (simp add: transfer_body_def clearIOC_def sendDMAReq_def Let_def) (simp add: tp_regfail_def)

text \<open>
  C3 as stated fails: with a transport that answers ok on memory and not ok on every
  register, a burst-mode \<open>testRun\<close> ends normally. All 7 register transactions of the
  run (2 of \<open>enableIOC\<close>, 3 of \<open>sendDMAReq\<close>, 2 of \<open>clearIOC\<close>) came back not ok; the
  transfer request was issued, the offset advanced to 10 and the flow printed its
  last line.
\<close>

theorem failed_register_writes_ignored:
  "map_option (map_sum fst (\<lambda>s. (length (failed_register_transactions (trace s)),
                                   transfer_requests False (trace s), mm2sOffset s,
                                   printed (trace s))))
     (testRun tp_regfail regs0 (DMATester_new True)) =
   Some (Inr (7, 1, 10, [''Test data consumed!'']))"
proof -
  have h: "ok (tp_regfail 1 (load_transaction regs0))"
    by (simp add: tp_regfail_def load_transaction_def)
  let ?s1 = "emit (Notify dataLoaded)
               (transact tp_regfail (load_transaction regs0)
                  ((emit (Wait_ps 20000) (DMATester_new True))\<lparr>testData := test_vector\<rparr>))"
  let ?s0 = "enableIOC tp_regfail regs0 False 0 ?s1"
  have e: "testRun_entry tp_regfail regs0 (DMATester_new True) = Inr ?s0"
    using h by (simp add: testRun_entry_def loadData_new)
  have len: "length (testData ?s0) = 10" and off: "offset_of False ?s0 = 0"
    and burst: "burstMode ?s0"
    by (simp_all add: length_test_vector offset_of_def DMATester_new_def)
  have f1: "failed_register_transactions (trace ?s1) = []"
    using h by (simp add: DMATester_new_def load_transaction_def)
  have f0: "length (failed_register_transactions (trace ?s0)) = 2"
    using f1 by (simp only: regfail_enableIOC) simp
  have p0: "printed (trace ?s0) = []" "transfer_requests False (trace ?s0) = 0"
    using testRun_entry_ok [of tp_regfail regs0 True False] h e by auto
  let ?s3 = "loop_states tp_regfail regs0 False ?s0 10"
  have s3: "?s3 = transfer_body tp_regfail regs0 False ?s0"
    using loop_10(2) [OF len off, of tp_regfail regs0] burst by simp
  have fin: "testRun tp_regfail regs0 (DMATester_new True) =
               Some (Inr (emit (Print ''Test data consumed!'') ?s3))"
    using e loop_10(1) [OF len off, of tp_regfail regs0] by (simp add: testRun_unfold)
  have "length (failed_register_transactions (trace ?s3)) = 7"
    using f0 by (simp only: s3 regfail_transfer_body)
  moreover have "transfer_requests False (trace ?s3) = 1"
    using loop_10(4) [OF len off, where tp = tp_regfail and c = regs0 and d' = False] burst p0
    by simp
  moreover have "mm2sOffset ?s3 = 10"
    using loop_10(3) [OF len off, where tp = tp_regfail and c = regs0] by (simp add: offset_of_def)
  moreover have "printed (trace ?s3) = []"
    using p0 by simp
  ultimately show ?thesis
    by (simp add: fin)
qed

subsection \<open>Writeback verification\<close>

lemma upt10: "[0..<10] = [0, 1, 2, 3, 4, 5, 6, 7, 8, 9]"
  by (simp add: upt_rec)

lemma float_of_size_t_values:
  "float_of_size_t 0 = 0" "float_of_size_t 1 = 0x3F800000" "float_of_size_t 2 = 0x40000000"
  "float_of_size_t 3 = 0x40400000" "float_of_size_t 4 = 0x40800000"
  "float_of_size_t 5 = 0x40A00000" "float_of_size_t 6 = 0x40C00000"
  "float_of_size_t 7 = 0x40E00000" "float_of_size_t 8 = 0x41000000"
  "float_of_size_t 9 = 0x41100000" "float_of_size_t (Suc 0) = 0x3F800000"
  by (simp_all add: float_of_size_t_def)

lemma test_vector_values:
  "test_vector = [0, 0x3F800000, 0x40000000, 0x40400000, 0x40800000,
                  0x40A00000, 0x40C00000, 0x40E00000, 0x41000000, 0x41100000]"
  by (simp add: test_vector_def upt10 float_of_size_t_values)

lemma test_vector_self_equal: "list_all (\<lambda>x. \<not> float_ne x x) test_vector"
  by (simp add: test_vector_values float_ne_def float_isnan_def)

lemma test_vector_nth_equal:
  assumes "j < 10"
  shows "\<not> float_ne (test_vector ! j) (test_vector ! j)"
  using assms test_vector_self_equal
  by (simp add: list_all_length length_test_vector)

lemma test_vector_differs_from_zero:
  "float_ne (test_vector ! 3) 0" "float_ne (test_vector ! 7) 0"
  by (simp_all add: test_vector_values float_ne_def float_isnan_def float_iszero_def)

text \<open>What the transport \<open>tp_readback i v\<close> leaves in the readback buffer.\<close>

lemma tp_readback_simps:
  "ok (respond (tp_readback i v) (readback_transaction c) s)"
  "j < 10 \<Longrightarrow>
     map (rdata (respond (tp_readback i v) (readback_transaction c) s)) [0..<10] ! j =
       (if j = i then v else test_vector ! j)"
  by (simp_all add: respond_def tp_readback_def readback_transaction_def)

lemma readback_mismatch:
  assumes "i < 10" and "float_ne (test_vector ! i) v"
  shows "compare_from 0 test_vector
           (map (rdata (respond (tp_readback i v) (readback_transaction c) s)) [0..<10]) =
         Mismatch i"
proof (rule compare_from_first_mismatch)
  let ?md = "map (rdata (respond (tp_readback i v) (readback_transaction c) s)) [0..<10]"
  show "length ?md = length test_vector"
    by (simp add: length_test_vector)
  show "i < length test_vector"
    using assms by (simp add: length_test_vector)
  show "float_ne (test_vector ! i) (?md ! i)"
    using assms by (simp only: tp_readback_simps(2)) simp
  show "\<forall>j<i. \<not> float_ne (test_vector ! j) (?md ! j)"
  proof (intro allI impI)
    fix j assume "j < i"
    with assms have "j < 10" "j \<noteq> i" by simp_all
    then show "\<not> float_ne (test_vector ! j) (?md ! j)"
      by (simp only: tp_readback_simps(2)) (simp add: test_vector_nth_equal)
  qed
qed

lemma readback_all_match:
  "compare_from 0 test_vector
     (map (rdata (respond (tp_readback 10 v) (readback_transaction c) s)) [0..<10]) = AllMatch"
proof (rule compare_from_all_match)
  let ?md = "map (rdata (respond (tp_readback 10 v) (readback_transaction c) s)) [0..<10]"
  show "length ?md = length test_vector"
    by (simp add: length_test_vector)
  show "\<forall>j<length test_vector. \<not> float_ne (test_vector ! j) (?md ! j)"
  proof (intro allI impI)
    fix j assume "j < length test_vector"
    then have "j < 10" "j \<noteq> 10" by (simp_all add: length_test_vector)
    then show "\<not> float_ne (test_vector ! j) (?md ! j)"
      by (simp only: tp_readback_simps(2)) (simp add: test_vector_nth_equal)
  qed
qed

lemma verifyMemWriteback_printed:
  fixes tp c b
  defines "s3 \<equiv> loop_states tp c True (verifyMemWriteback_entry tp c test_vector (DMATester_new b)) 10"
  defines "r \<equiv> respond tp (readback_transaction c) s3"
  defines "md \<equiv> map (rdata r) [0..<10]"
  assumes "ok r"
  shows "compare_from 0 test_vector md = Mismatch i \<Longrightarrow>
           \<exists>s. verifyMemWriteback tp c test_vector (DMATester_new b) = Some (Inr s) \<and>
               printed (trace s) = [''Writeback data doesn't match test data'']"
    and "compare_from 0 test_vector md = AllMatch \<Longrightarrow>
           \<exists>s. verifyMemWriteback tp c test_vector (DMATester_new b) = Some (Inr s) \<and>
               printed (trace s) = []"
proof -
  have p3: "printed (trace s3) = []"
    unfolding s3_def by (rule final_trace(2))
  show "compare_from 0 test_vector md = Mismatch i \<Longrightarrow>
           \<exists>s. verifyMemWriteback tp c test_vector (DMATester_new b) = Some (Inr s) \<and>
               printed (trace s) = [''Writeback data doesn't match test data'']"
    using verifyMemWriteback_outcome(3) [of tp c b i] assms(4) p3
    by (simp add: r_def md_def s3_def)
  show "compare_from 0 test_vector md = AllMatch \<Longrightarrow>
           \<exists>s. verifyMemWriteback tp c test_vector (DMATester_new b) = Some (Inr s) \<and>
               printed (trace s) = []"
    using verifyMemWriteback_outcome(2) [of tp c b] assms(4) p3
    by (simp add: r_def md_def s3_def)
qed

text \<open>
  C5, as the code has it. When the readback is answered ok and \<open>i\<close> is the first index at
  which the writeback differs from the test data, the comparison loop returns at \<open>i\<close>,
  and it returns at \<open>i\<close> whatever the writeback holds after index \<open>i\<close>; the flow ends
  normally, and the one line it prints is "Writeback data doesn't match test data",
  the same for every index. When every element matches, the flow ends normally and
  prints nothing.
\<close>

theorem writeback_verification:
  fixes tp c b
  defines "s3 \<equiv> loop_states tp c True (verifyMemWriteback_entry tp c test_vector (DMATester_new b)) 10"
  defines "r \<equiv> respond tp (readback_transaction c) s3"
  defines "md \<equiv> map (rdata r) [0..<10]"
  assumes "ok r"
  shows "(\<forall>i. i < 10 \<and> float_ne (test_vector ! i) (md ! i) \<and>
              (\<forall>j<i. \<not> float_ne (test_vector ! j) (md ! j)) \<longrightarrow>
            compare_from 0 test_vector md = Mismatch i \<and>
            (\<forall>md'. length md' = 10 \<and> take (Suc i) md' = take (Suc i) md \<longrightarrow>
                    compare_from 0 test_vector md' = Mismatch i) \<and>
            (\<exists>s. verifyMemWriteback tp c test_vector (DMATester_new b) = Some (Inr s) \<and>
                 printed (trace s) = [''Writeback data doesn't match test data''])) \<and>
         ((\<forall>i<10. \<not> float_ne (test_vector ! i) (md ! i)) \<longrightarrow>
            compare_from 0 test_vector md = AllMatch \<and>
            (\<exists>s. verifyMemWriteback tp c test_vector (DMATester_new b) = Some (Inr s) \<and>
                 printed (trace s) = []))"
proof (intro conjI allI impI)
  have len: "length md = length test_vector"
    by (simp add: md_def length_test_vector)
  {
    fix i
    assume a: "i < 10 \<and> float_ne (test_vector ! i) (md ! i) \<and>
               (\<forall>j<i. \<not> float_ne (test_vector ! j) (md ! j))"
    then show m: "compare_from 0 test_vector md = Mismatch i"
      using len by (intro compare_from_first_mismatch) (simp_all add: length_test_vector)
    show "\<exists>s. verifyMemWriteback tp c test_vector (DMATester_new b) = Some (Inr s) \<and>
               printed (trace s) = [''Writeback data doesn't match test data'']"
      using verifyMemWriteback_printed(1) [of tp c b i] assms(4) m
      by (simp add: r_def md_def s3_def)
    fix md' :: "float32 list"
    assume "length md' = 10 \<and> take (Suc i) md' = take (Suc i) md"
    with m len show "compare_from 0 test_vector md' = Mismatch i"
      by (intro compare_from_ignores_rest [of test_vector md i md'])
         (simp_all add: length_test_vector)
  }
  assume "\<forall>i<10. \<not> float_ne (test_vector ! i) (md ! i)"
  then show m: "compare_from 0 test_vector md = AllMatch"
    using len by (intro compare_from_all_match) (simp_all add: length_test_vector)
  show "\<exists>s. verifyMemWriteback tp c test_vector (DMATester_new b) = Some (Inr s) \<and>
             printed (trace s) = []"
    using verifyMemWriteback_printed(2) [of tp c b] assms(4) m
    by (simp add: r_def md_def s3_def)
qed

theorem writeback_verification_witness:
  "let tp = tp_readback 3 0;
       s3 = loop_states tp regs0 True
              (verifyMemWriteback_entry tp regs0 test_vector (DMATester_new True)) 10;
       md = map (rdata (respond tp (readback_transaction regs0) s3)) [0..<10]
   in ok (respond tp (readback_transaction regs0) s3) \<and>
      float_ne (test_vector ! 3) (md ! 3) \<and>
      list_all (\<lambda>j. \<not> float_ne (test_vector ! j) (md ! j)) [0..<3] \<and>
      compare_from 0 test_vector md = Mismatch 3 \<and>
      (\<exists>s. verifyMemWriteback tp regs0 test_vector (DMATester_new True) = Some (Inr s) \<and>
           printed (trace s) = [''Writeback data doesn't match test data''])"
proof -
  let ?tp = "tp_readback 3 0"
  let ?s3 = "loop_states ?tp regs0 True
               (verifyMemWriteback_entry ?tp regs0 test_vector (DMATester_new True)) 10"
  let ?md = "map (rdata (respond ?tp (readback_transaction regs0) ?s3)) [0..<10]"
  have k: "ok (respond ?tp (readback_transaction regs0) ?s3)"
    by (rule tp_readback_simps(1))
  have ne: "float_ne (test_vector ! 3) (?md ! 3)"
    by (simp only: tp_readback_simps(2)) (simp add: test_vector_differs_from_zero)
  have eq: "\<not> float_ne (test_vector ! j) (?md ! j)" if "j < 3" for j
  proof -
    from that have "j < 10" "j \<noteq> 3" by simp_all
    then show ?thesis
      by (simp only: tp_readback_simps(2)) (simp add: test_vector_nth_equal)
  qed
  then have all: "list_all (\<lambda>j. \<not> float_ne (test_vector ! j) (?md ! j)) [0..<3]"
    by (simp add: list_all_iff)
  from writeback_verification [of ?tp regs0 True, OF k]
  have "(3::nat) < 10 \<and> float_ne (test_vector ! 3) (?md ! 3) \<and>
          (\<forall>j<3. \<not> float_ne (test_vector ! j) (?md ! j)) \<longrightarrow>
        compare_from 0 test_vector ?md = Mismatch 3 \<and>
        (\<exists>s. verifyMemWriteback ?tp regs0 test_vector (DMATester_new True) = Some (Inr s) \<and>
             printed (trace s) = [''Writeback data doesn't match test data''])"
    by blast
  with ne eq have "compare_from 0 test_vector ?md = Mismatch 3 \<and>
        (\<exists>s. verifyMemWriteback ?tp regs0 test_vector (DMATester_new True) = Some (Inr s) \<and>
             printed (trace s) = [''Writeback data doesn't match test data''])"
    by simp
  with k ne all show ?thesis
    by (simp only: Let_def)
qed

text \<open>
  C5 as stated fails: a writeback that differs at index 3 and one that differs at
  index 7 produce the same output, a line that names no index; a writeback equal to
  the test data produces no output at all.
\<close>

theorem mismatch_report_names_no_index:
  "map_option (map_sum fst (printed \<circ> trace))
     (verifyMemWriteback (tp_readback 3 0) regs0 test_vector (DMATester_new True)) =
     Some (Inr [''Writeback data doesn't match test data'']) \<and>
   map_option (map_sum fst (printed \<circ> trace))
     (verifyMemWriteback (tp_readback 7 0) regs0 test_vector (DMATester_new True)) =
     Some (Inr [''Writeback data doesn't match test data'']) \<and>
   map_option (map_sum fst (printed \<circ> trace))
     (verifyMemWriteback (tp_readback 10 0) regs0 test_vector (DMATester_new True)) =
     Some (Inr [])"
proof -
  have m: "map_option (map_sum fst (printed \<circ> trace))
     (verifyMemWriteback (tp_readback i 0) regs0 test_vector (DMATester_new True)) =
     Some (Inr [''Writeback data doesn't match test data''])"
    if "i < 10" "float_ne (test_vector ! i) 0" for i
    using verifyMemWriteback_printed(1) [of "tp_readback i 0" regs0 True i]
      tp_readback_simps(1) [of i 0 regs0] readback_mismatch [OF that, of regs0]
    by auto
  have "map_option (map_sum fst (printed \<circ> trace))
     (verifyMemWriteback (tp_readback 10 0) regs0 test_vector (DMATester_new True)) =
     Some (Inr [])"
    using verifyMemWriteback_printed(2) [of "tp_readback 10 0" regs0 True]
      tp_readback_simps(1) [of 10 0 regs0] readback_all_match [of 0 regs0]
    by auto
  with m [of 3] m [of 7] test_vector_differs_from_zero show ?thesis
    by simp
qed

end
